theory Spec2Isabelle
  imports Main
begin

section \<open>Data model\<close>

text \<open>
  The header-only library prints a stack trace when a fatal signal arrives or when the
  \<^verbatim>\<open>CRITICAL\<close> macro is used, and then ends the process. Everything it does is an
  effect on the process or a call into the C library, so the model threads an explicit
  process state through every function and takes what the platform answers
  (\<^verbatim>\<open>backtrace\<close>, \<^verbatim>\<open>backtrace_symbols\<close>, \<^verbatim>\<open>popen\<close>) from a record of
  its own.
\<close>

text \<open>The three bytes the resolver tests for.\<close>

abbreviation NUL :: char where "NUL \<equiv> CHR 0x00"
abbreviation LF :: char where "LF \<equiv> CHR 0x0A"
abbreviation CR :: char where "CR \<equiv> CHR 0x0D"

text \<open>Exit statuses of \<^verbatim>\<open><cstdlib>\<close>.\<close>

datatype status = EXIT_SUCCESS | EXIT_FAILURE

text \<open>
  The class \<^verbatim>\<open>CriticalException\<close>: four private fields set by the constructor
  (the field \<^verbatim>\<open>file\<close> is \<open>fileName\<close> here, \<open>file\<close> being reserved in Isabelle).
\<close>

record CriticalException =
  message :: string
  funcName :: string
  fileName :: string
  line :: int

text \<open>
  How a call ends: it returns, it throws a \<^verbatim>\<open>CriticalException\<close>, it calls
  \<^verbatim>\<open>exit\<close>, or it calls \<^verbatim>\<open>_Exit\<close> (immediate termination, no handlers run).
\<close>

datatype outcome = Return | Throw CriticalException | Exit status | Exit_now status

text \<open>
  What is written to \<^verbatim>\<open>std::cerr\<close>, one value per output statement:
  the resolved frame line of \<^verbatim>\<open>addr2line\<close> (index, address, symbol, location),
  the fallback frame line of \<^verbatim>\<open>print_stacktrace\<close> (index, library string),
  a message followed by \<^verbatim>\<open>std::endl\<close>, and the line of \<^verbatim>\<open>perror\<close>.
  Addresses (\<^verbatim>\<open>void*\<close>) are an opaque type \<open>'a\<close>.
\<close>

datatype 'a out =
    Resolved int 'a string string
  | Fallback int string
  | Message string
  | Perror string

text \<open>
  The command line built by \<^verbatim>\<open>sprintf(addr2line_cmd, "addr2line -C -f -e %.256s %p", ...)\<close>:
  the program name as \<^verbatim>\<open>%.256s\<close> printed it, and the address. (Under
  \<^verbatim>\<open>__APPLE__\<close> the tool is \<^verbatim>\<open>atos -o\<close>; nothing else in the function differs.)
\<close>

datatype 'a command = Addr2line string 'a

text \<open>
  The process: the static \<^verbatim>\<open>_programName\<close> behind \<^verbatim>\<open>Exceptions::getProgramName()\<close>
  (a null pointer until \<^verbatim>\<open>init_exceptions\<close> stores one), the signals whose handler is
  \<^verbatim>\<open>posix_signal_handler\<close>, the standard error stream, every command passed to
  \<^verbatim>\<open>popen\<close>, and how many pipes were opened and how many were closed by
  \<^verbatim>\<open>pclose\<close>.
\<close>

record 'a process =
  programName :: "string option"
  handled :: "int set"
  err :: "'a out list"
  spawned :: "'a command list"
  opened :: nat
  closed :: nat

text \<open>
  The platform: the return addresses on the call stack (innermost first) when
  \<^verbatim>\<open>backtrace\<close> is called, the string \<^verbatim>\<open>backtrace_symbols\<close> gives for an address,
  whether \<^verbatim>\<open>backtrace_symbols\<close> fails (it returns \<^verbatim>\<open>NULL\<close> when it cannot
  allocate), and what \<^verbatim>\<open>popen\<close> answers to the \<open>n\<close>-th command of the process:
  \<open>None\<close> for \<^verbatim>\<open>NULL\<close>, otherwise all the bytes the subprocess writes to its
  standard output. A subprocess that never ends its output is outside the model.
\<close>

record 'a platform =
  stack :: "'a list"
  symbol_of :: "'a \<Rightarrow> string"
  symbols_fail :: bool
  popen_out :: "nat \<Rightarrow> 'a command \<Rightarrow> string option"

section \<open>The C library\<close>

definition MAX_BACKTRACE_LINES :: nat where
  "MAX_BACKTRACE_LINES = 64"

text \<open>\<^verbatim>\<open>backtrace(buffer, size)\<close> stores at most \<open>size\<close> addresses; \<open>nptrs\<close> is their number.\<close>

definition backtrace :: "'a platform \<Rightarrow> nat \<Rightarrow> 'a list" where
  "backtrace pf sz = take sz (stack pf)"

text \<open>\<^verbatim>\<open>backtrace_symbols(buffer, nptrs)\<close>: one string per address, or \<^verbatim>\<open>NULL\<close>.\<close>

definition backtrace_symbols :: "'a platform \<Rightarrow> 'a list \<Rightarrow> string list option" where
  "backtrace_symbols pf buffer =
     (if symbols_fail pf then None else Some (map (symbol_of pf) buffer))"

text \<open>
  \<^verbatim>\<open>fgets(buf, size, fp)\<close> on the bytes \<open>fp\<close> still to be read: it stores at most
  \<open>size - 1\<close> bytes, stops after a newline, and returns \<^verbatim>\<open>NULL\<close> when the stream is
  at its end. The result is the bytes stored and the bytes left in the stream.
\<close>

fun fgets_aux :: "nat \<Rightarrow> string \<Rightarrow> string \<times> string" where
  "fgets_aux n [] = ([], [])"
| "fgets_aux n (c # cs) =
     (if n = 0 then ([], c # cs)
      else if c = LF then ([c], cs)
      else (case fgets_aux (n - 1) cs of (l, r) \<Rightarrow> (c # l, r)))"

definition fgets :: "nat \<Rightarrow> string \<Rightarrow> (string \<times> string) option" where
  "fgets sz fp = (if fp = [] then None else Some (fgets_aux (sz - 1) fp))"

text \<open>A buffer read as a C string: the bytes before the first NUL.\<close>

definition c_str :: "string \<Rightarrow> string" where
  "c_str buf = takeWhile (\<lambda>c. c \<noteq> NUL) buf"

text \<open>\<^verbatim>\<open>pclose(fp)\<close>.\<close>

definition pclose :: "'a process \<Rightarrow> 'a process" where
  "pclose s = s\<lparr>closed := closed s + 1\<rparr>"

text \<open>Decimal output of an \<^verbatim>\<open>int\<close> by \<^verbatim>\<open>operator<<\<close>, as \<^verbatim>\<open>itos\<close> uses it.\<close>

definition digit :: "nat \<Rightarrow> char" where
  "digit n = ''0123456789'' ! n"

function digits :: "nat \<Rightarrow> string" where
  "digits n = (if n < 10 then [digit n] else digits (n div 10) @ [digit (n mod 10)])"
  by pat_completeness auto
termination
  by (relation "measure (\<lambda>n. n)") auto

declare digits.simps [simp del]

definition itos :: "int \<Rightarrow> string" where
  "itos i = (if i < 0 then CHR ''-'' # digits (nat (- i)) else digits (nat i))"

section \<open>The library\<close>

subsection \<open>The address resolver\<close>

text \<open>
  The first inner loop of \<^verbatim>\<open>addr2line\<close> writes a NUL over the first carriage return
  or newline of \<^verbatim>\<open>outLine1\<close>, looking at the indices below 1035. The list is the part
  of the buffer \<^verbatim>\<open>fgets\<close> filled; it is followed by the NUL \<^verbatim>\<open>fgets\<close> stored, so
  a write beyond the list cannot change the C string that is printed.
\<close>

fun strip_line_end :: "nat \<Rightarrow> string \<Rightarrow> string" where
  "strip_line_end i [] = []"
| "strip_line_end i (c # cs) =
     (if i < 1035 then
        (if c = CR \<or> c = LF then NUL # cs else c # strip_line_end (i + 1) cs)
      else c # cs)"

text \<open>
  The second inner loop: \<^verbatim>\<open>lastSlashPos\<close> is one more than the index of the last
  \<^verbatim>\<open>'/'\<close> before the terminating NUL, and 0 when there is none.
\<close>

fun lastSlashPos :: "nat \<Rightarrow> nat \<Rightarrow> string \<Rightarrow> nat" where
  "lastSlashPos i p [] = p"
| "lastSlashPos i p (c # cs) =
     (if i < 1035 \<and> c \<noteq> NUL
      then lastSlashPos (i + 1) (if c = CHR ''/'' then i + 1 else p) cs
      else p)"

text \<open>\<^verbatim>\<open>outLine2[0]\<close>: the first byte stored, or the terminating NUL.\<close>

definition first_char :: "string \<Rightarrow> char" where
  "first_char buf = (case buf of [] \<Rightarrow> NUL | c # _ \<Rightarrow> c)"

text \<open>Every successful read takes at least one byte from the stream.\<close>

lemma fgets_aux_append: "fgets_aux n cs = (l, r) \<Longrightarrow> cs = l @ r"
  by (induction n cs arbitrary: l r rule: fgets_aux.induct)
     (auto split: if_splits prod.splits)

lemma fgets_aux_nonempty: "0 < n \<Longrightarrow> cs \<noteq> [] \<Longrightarrow> fgets_aux n cs = (l, r) \<Longrightarrow> l \<noteq> []"
  by (cases cs) (auto split: if_splits prod.splits)

lemma fgets_aux_length: "fgets_aux n cs = (l, r) \<Longrightarrow> length l \<le> n"
  by (induction n cs arbitrary: l r rule: fgets_aux.induct)
     (fastforce split: if_splits prod.splits)+

lemma fgets_Some:
  assumes "fgets sz fp = Some (l, r)" and "2 \<le> sz"
  shows "fp = l @ r" and "l \<noteq> []" and "length l \<le> sz - 1" and "length r < length fp"
proof -
  from assms have ne: "fp \<noteq> []" and aux: "fgets_aux (sz - 1) fp = (l, r)"
    by (auto simp: fgets_def split: if_splits)
  show 1: "fp = l @ r" using aux by (rule fgets_aux_append)
  show 2: "l \<noteq> []" using assms(2) ne aux by (auto dest: fgets_aux_nonempty [rotated 2])
  show "length l \<le> sz - 1" using aux by (rule fgets_aux_length)
  show "length r < length fp" using 1 2 by simp
qed

text \<open>
  \<^verbatim>\<open>popen(addr2line_cmd, "r")\<close>: the command is logged; a pipe that opens is counted
  and its value is the subprocess's output.
\<close>

definition popen :: "'a platform \<Rightarrow> 'a command \<Rightarrow> 'a process \<Rightarrow> string option \<times> 'a process" where
  "popen pf cmd s =
     (case popen_out pf (length (spawned s)) cmd of
        None \<Rightarrow> (None, s\<lparr>spawned := spawned s @ [cmd]\<rparr>)
      | Some bytes \<Rightarrow> (Some bytes, s\<lparr>spawned := spawned s @ [cmd], opened := opened s + 1\<rparr>))"

text \<open>
  \<^verbatim>\<open>%.256s\<close>: at most 256 bytes of the string; the C library prints
  \<^verbatim>\<open>(null)\<close> for a null pointer.
\<close>

definition percent_s :: "nat \<Rightarrow> string option \<Rightarrow> string" where
  "percent_s prec str = (case str of None \<Rightarrow> ''(null)'' | Some cs \<Rightarrow> take prec cs)"

text \<open>
  The \<^verbatim>\<open>while\<close> loop of \<^verbatim>\<open>addr2line\<close> on the open pipe \<open>fp\<close>: it reads two
  lines into buffers of 1035 bytes (\<^verbatim>\<open>sizeof(outLine1) - 1\<close> is the size given to
  \<^verbatim>\<open>fgets\<close>), prints them when the second does not start with a question mark, and
  goes on with the next pair. Every way out of the function closes the pipe.
\<close>

function addr2line_loop :: "'a \<Rightarrow> int \<Rightarrow> string \<Rightarrow> 'a process \<Rightarrow> int \<times> 'a process" where
  "addr2line_loop addr lineNb fp s =
     (case fgets (1035 - 1) fp of
        None \<Rightarrow> (0, pclose s)
      | Some (outLine1, fp1) \<Rightarrow>
          (case fgets (1035 - 1) fp1 of
             None \<Rightarrow> (1, pclose s)
           | Some (outLine2, fp2) \<Rightarrow>
               if first_char outLine2 \<noteq> CHR ''?'' then
                 addr2line_loop addr lineNb fp2
                   (s\<lparr>err := err s @
                      [Resolved lineNb addr
                         (c_str (strip_line_end 0 outLine1))
                         (c_str (drop (lastSlashPos 0 0 outLine2) outLine2))]\<rparr>)
               else (1, pclose s)))"
  by pat_completeness auto
termination
proof (relation "measure (\<lambda>(addr, lineNb, fp, s). length fp)")
  show "wf (measure (\<lambda>(addr, lineNb, fp, s). length fp))" by simp
next
  fix addr :: 'a and lineNb :: int and fp :: string and s :: "'a process"
    and x2 outLine1 fp1 x2a outLine2 fp2
  assume "fgets (1035 - 1) fp = Some x2" and "(outLine1, fp1) = x2"
    and "fgets (1035 - 1) fp1 = Some x2a" and "(outLine2, fp2) = x2a"
  then have "length fp1 < length fp" and "length fp2 < length fp1"
    using fgets_Some(4) [of "1035 - 1" fp outLine1 fp1]
      fgets_Some(4) [of "1035 - 1" fp1 outLine2 fp2] by auto
  then show "((addr, lineNb, fp2,
       s\<lparr>err := err s @
          [Resolved lineNb addr (c_str (strip_line_end 0 outLine1))
             (c_str (drop (lastSlashPos 0 0 outLine2) outLine2))]\<rparr>),
      addr, lineNb, fp, s) \<in> measure (\<lambda>(addr, lineNb, fp, s). length fp)"
    by simp
qed

declare addr2line_loop.simps [simp del]

text \<open>
  \<^verbatim>\<open>addr2line(program_name, addr, lineNb)\<close>: 0 when the loop ran to the end of the
  output, 1 when the pipe did not open or a pair of lines was missing or unreadable.
\<close>

definition addr2line :: "'a platform \<Rightarrow> string option \<Rightarrow> 'a \<Rightarrow> int \<Rightarrow> 'a process \<Rightarrow> int \<times> 'a process" where
  "addr2line pf program_name addr lineNb s =
     (let addr2line_cmd = Addr2line (percent_s 256 program_name) addr
      in case popen pf addr2line_cmd s of
           (None, s1) \<Rightarrow> (1, s1)
         | (Some fp, s1) \<Rightarrow> addr2line_loop addr lineNb fp s1)"

subsection \<open>The stack walker\<close>

definition getProgramName :: "'a process \<Rightarrow> string option" where
  "getProgramName s = programName s"

text \<open>
  The body of the \<^verbatim>\<open>for\<close> loop of \<^verbatim>\<open>print_stacktrace\<close> at the index \<open>i\<close>:
  the frame is resolved, and when \<^verbatim>\<open>addr2line\<close> does not return 0 the library's
  string is printed instead.
\<close>

definition print_stacktrace_frame ::
  "'a platform \<Rightarrow> 'a list \<Rightarrow> string list \<Rightarrow> int \<Rightarrow> int \<Rightarrow> 'a process \<Rightarrow> 'a process" where
  "print_stacktrace_frame pf buffer strings nptrs i s =
     (case addr2line pf (getProgramName s) (buffer ! nat i) (nptrs - 2 - i - 1) s of
        (r, s1) \<Rightarrow>
          if r \<noteq> 0
          then s1\<lparr>err := err s1 @ [Fallback (nptrs - 2 - i - 1) (strings ! nat i)]\<rparr>
          else s1)"

text \<open>The loop itself, from the index \<open>i\<close> on: \<^verbatim>\<open>for(; i < nptrs - 2; ++i)\<close>.\<close>

function print_stacktrace_loop ::
  "'a platform \<Rightarrow> 'a list \<Rightarrow> string list \<Rightarrow> int \<Rightarrow> int \<Rightarrow> 'a process \<Rightarrow> 'a process" where
  "print_stacktrace_loop pf buffer strings nptrs i s =
     (if i < nptrs - 2
      then print_stacktrace_loop pf buffer strings nptrs (i + 1)
             (print_stacktrace_frame pf buffer strings nptrs i s)
      else s)"
  by pat_completeness auto
termination
  by (relation "measure (\<lambda>(pf, buffer, strings, nptrs, i, s). nat (nptrs - 2 - i))") auto

declare print_stacktrace_loop.simps [simp del]

definition print_stacktrace :: "'a platform \<Rightarrow> int \<Rightarrow> 'a process \<Rightarrow> outcome \<times> 'a process" where
  "print_stacktrace pf calledFromSigInt s =
     (let buffer = backtrace pf MAX_BACKTRACE_LINES;
          nptrs = int (length buffer)
      in case backtrace_symbols pf buffer of
           None \<Rightarrow> (Exit EXIT_FAILURE, s\<lparr>err := err s @ [Perror ''backtrace_symbols'']\<rparr>)
         | Some strings \<Rightarrow>
             (Return,
              print_stacktrace_loop pf buffer strings nptrs
                (if calledFromSigInt \<noteq> 0 then 1 + 1 else 1) s))"

subsection \<open>The signal handler\<close>

text \<open>The signal numbers of \<^verbatim>\<open><csignal>\<close> on Linux.\<close>

definition SIGINT :: int where "SIGINT = 2"
definition SIGILL :: int where "SIGILL = 4"
definition SIGABRT :: int where "SIGABRT = 6"
definition SIGFPE :: int where "SIGFPE = 8"
definition SIGSEGV :: int where "SIGSEGV = 11"
definition SIGTERM :: int where "SIGTERM = 15"

definition posix_signal_handler :: "'a platform \<Rightarrow> int \<Rightarrow> 'a process \<Rightarrow> outcome \<times> 'a process" where
  "posix_signal_handler pf sig s =
     (case print_stacktrace pf 1 s of
        (Return, s1) \<Rightarrow>
          (Exit_now EXIT_FAILURE,
           s1\<lparr>err := err s1 @
             [Message
                (if sig = SIGABRT then ''Caught SIGABRT: usually caused by an abort() or assert()''
                 else if sig = SIGFPE then ''Caught SIGFPE: arithmetic exception, such as divide by zero''
                 else if sig = SIGILL then ''Caught SIGILL: illegal instruction''
                 else if sig = SIGINT then ''Caught SIGINT: interactive attention signal, probably a ctrl+c''
                 else if sig = SIGSEGV then ''Caught SIGSEGV: segfault''
                 else ''Caught SIGTERM: a termination request was sent to the program'')]\<rparr>)
      | (r, s1) \<Rightarrow> (r, s1))"

text \<open>\<^verbatim>\<open>set_signal_handler\<close> is only ever given \<^verbatim>\<open>posix_signal_handler\<close>.\<close>

definition set_signal_handler :: "'a process \<Rightarrow> 'a process" where
  "set_signal_handler s =
     s\<lparr>handled := handled s \<union> {SIGABRT, SIGFPE, SIGILL, SIGINT, SIGSEGV, SIGTERM}\<rparr>"

definition init_exceptions :: "string option \<Rightarrow> 'a process \<Rightarrow> 'a process" where
  "init_exceptions name s = (set_signal_handler s)\<lparr>programName := name\<rparr>"

subsection \<open>Critical events and the exception boundary\<close>

definition toStr :: "CriticalException \<Rightarrow> string" where
  "toStr e =
     message e @ '' (in '' @ funcName e @ '' at '' @ fileName e @ '':'' @ itos (line e) @ '')''"

text \<open>
  The macro \<^verbatim>\<open>CRITICAL(str)\<close> at a call site whose \<^verbatim>\<open>__func__\<close>, \<^verbatim>\<open>__FILE__\<close>
  and \<^verbatim>\<open>__LINE__\<close> are \<open>func\<close>, \<open>fl\<close> and \<open>ln\<close>.
\<close>

definition CRITICAL ::
  "'a platform \<Rightarrow> string \<Rightarrow> string \<Rightarrow> string \<Rightarrow> int \<Rightarrow> 'a process \<Rightarrow> outcome \<times> 'a process" where
  "CRITICAL pf str func fl ln s =
     (case print_stacktrace pf 0 s of
        (Return, s1) \<Rightarrow>
          (Throw \<lparr>message = str, funcName = func, fileName = fl, line = ln\<rparr>, s1)
      | (r, s1) \<Rightarrow> (r, s1))"

text \<open>
  \<^verbatim>\<open>BEGIN_EXCEPTIONS\<close> runs \<^verbatim>\<open>init_exceptions(argv[0])\<close> and opens the
  \<^verbatim>\<open>try\<close> block; \<^verbatim>\<open>END_EXCEPTIONS\<close> is the \<^verbatim>\<open>catch\<close> clause, applied to the
  way the block ended.
\<close>

definition BEGIN_EXCEPTIONS :: "string option \<Rightarrow> 'a process \<Rightarrow> 'a process" where
  "BEGIN_EXCEPTIONS argv0 s = init_exceptions argv0 s"

definition END_EXCEPTIONS :: "outcome \<times> 'a process \<Rightarrow> outcome \<times> 'a process" where
  "END_EXCEPTIONS res =
     (case res of
        (Throw exception, s) \<Rightarrow>
          (Exit EXIT_FAILURE, s\<lparr>err := err s @ [Message (toStr exception)]\<rparr>)
      | (r, s) \<Rightarrow> (r, s))"

subsection \<open>The bytes on the standard error stream\<close>

text \<open>
  The text of each output statement, given how a pointer is printed (\<open>showp\<close>) and the
  text of the current \<^verbatim>\<open>errno\<close>. \<^verbatim>\<open>std::endl\<close> is a newline; the resolved line
  is written with \<^verbatim>\<open>std::flush\<close> only, its newline is the one of the second line read.
\<close>

fun render :: "('a \<Rightarrow> string) \<Rightarrow> string \<Rightarrow> 'a out \<Rightarrow> string" where
  "render showp errno_text (Resolved lineNb addr outLine1 outLine2) =
     ''['' @ itos lineNb @ ''] '' @ showp addr @ '' in '' @ outLine1 @ '' at '' @ outLine2"
| "render showp errno_text (Fallback lineNb str) = ''['' @ itos lineNb @ ''] '' @ str @ [LF]"
| "render showp errno_text (Message str) = str @ [LF]"
| "render showp errno_text (Perror str) = str @ '': '' @ errno_text @ [LF]"

section \<open>Vocabulary of the properties\<close>

text \<open>The frame index an output statement prints between brackets, if it prints one.\<close>

fun printed_index :: "'a out \<Rightarrow> int option" where
  "printed_index (Resolved lineNb addr outLine1 outLine2) = Some lineNb"
| "printed_index (Fallback lineNb str) = Some lineNb"
| "printed_index (Message str) = None"
| "printed_index (Perror str) = None"

text \<open>
  A line of the trace for the frame at position \<open>i\<close> of the captured addresses: its index
  is \<open>nptrs - 2 - i - 1\<close>, and it shows either the library's string for that position or
  the address at that position with what the resolver found.
\<close>

definition frame_line :: "'a list \<Rightarrow> string list \<Rightarrow> int \<Rightarrow> int \<Rightarrow> 'a out \<Rightarrow> bool" where
  "frame_line buffer strings nptrs i e =
     (e = Fallback (nptrs - 2 - i - 1) (strings ! nat i) \<or>
      (\<exists>sym loc. e = Resolved (nptrs - 2 - i - 1) (buffer ! nat i) sym loc))"

text \<open>
  The subprocess wrote one or two lines, as \<^verbatim>\<open>addr2line\<close> reads them: a first read
  succeeds, and after a second one nothing is left.
\<close>

definition one_or_two_lines :: "string \<Rightarrow> bool" where
  "one_or_two_lines fp =
     (case fgets (1035 - 1) fp of
        None \<Rightarrow> False
      | Some (outLine1, fp1) \<Rightarrow>
          (case fgets (1035 - 1) fp1 of
             None \<Rightarrow> True
           | Some (outLine2, fp2) \<Rightarrow> fp2 = []))"

text \<open>What follows the last slash of a string (the whole string when it has none).\<close>

definition after_last_slash :: "string \<Rightarrow> string" where
  "after_last_slash str = rev (takeWhile (\<lambda>c. c \<noteq> CHR ''/'') (rev str))"

text \<open>A line up to its first carriage return or newline.\<close>

definition without_line_end :: "string \<Rightarrow> string" where
  "without_line_end str = takeWhile (\<lambda>c. c \<noteq> CR \<and> c \<noteq> LF) str"

text \<open>
  The number a string of decimal digits stands for, read from the left: the digit
  \<open>c\<close> counts for its code minus 48.
\<close>

definition decimal_value :: "string \<Rightarrow> nat" where
  "decimal_value str = foldl (\<lambda>v c. 10 * v + (of_char c - 48)) 0 str"

text \<open>A text that is exactly one line: it ends with its only newline.\<close>

definition one_line :: "string \<Rightarrow> bool" where
  "one_line txt = (txt \<noteq> [] \<and> last txt = LF \<and> LF \<notin> set (butlast txt))"

text \<open>
  The subprocess wrote one or two lines of text: no NUL byte, and a newline at the end.
\<close>

definition text_answer :: "string \<Rightarrow> bool" where
  "text_answer fp = (one_or_two_lines fp \<and> NUL \<notin> set fp \<and> last fp = LF)"

text \<open>
  A line of the trace for the frame at position \<open>i\<close>, as above, whose resolved form has
  no newline in the symbol and a location that is one line.
\<close>

definition line_record :: "'a list \<Rightarrow> string list \<Rightarrow> int \<Rightarrow> int \<Rightarrow> 'a out \<Rightarrow> bool" where
  "line_record buffer strings nptrs i e =
     (e = Fallback (nptrs - 2 - i - 1) (strings ! nat i) \<or>
      (\<exists>sym loc. e = Resolved (nptrs - 2 - i - 1) (buffer ! nat i) sym loc \<and>
         LF \<notin> set sym \<and> one_line loc))"

section \<open>Concrete runs\<close>

text \<open>
  A process at the start of \<^verbatim>\<open>main\<close>, before \<^verbatim>\<open>BEGIN_EXCEPTIONS\<close>, and a
  platform with five return addresses on the stack on which every pipe gives the same
  answer. The properties below are run on them.
\<close>

definition fresh :: "nat process" where
  "fresh = \<lparr>programName = None, handled = {}, err = [], spawned = [], opened = 0, closed = 0\<rparr>"

definition five_frames :: "bool \<Rightarrow> string option \<Rightarrow> nat platform" where
  "five_frames fail answer =
     \<lparr>stack = [100, 101, 102, 103, 104],
      symbol_of = (\<lambda>a. ''frame '' @ itos (int a)),
      symbols_fail = fail,
      popen_out = (\<lambda>n cmd. answer)\<rparr>"

text \<open>What \<^verbatim>\<open>addr2line -C -f -e\<close> writes for an address in \<^verbatim>\<open>main\<close>.\<close>

definition main_line :: string where
  "main_line = ''main'' @ [LF] @ ''/home/user/demo/main.cpp:6 (discriminator 1)'' @ [LF]"

text \<open>What it writes for an address it cannot resolve.\<close>

definition unknown_line :: string where
  "unknown_line = ''??'' @ [LF] @ ''??:0'' @ [LF]"

text \<open>A resolver that writes two pairs of lines for one address.\<close>

definition two_pairs :: string where
  "two_pairs = main_line @ main_line"

text \<open>
  Answers whose first line does not fit the buffer: a symbol of 1040 bytes, followed by an
  unresolved location, by an unresolved location and a third line, or by a location; and a
  symbol of 2070 bytes followed by a location.
\<close>

definition long_name :: string where
  "long_name = replicate 1033 CHR ''a'' @ ''aaaaaaa''"



definition long_resolved :: string where
  "long_resolved = long_name @ [LF] @ ''/home/user/demo/main.cpp:6'' @ [LF]"

definition longer_resolved :: string where
  "longer_resolved =
     replicate 1033 CHR ''a'' @ replicate 1033 CHR ''a'' @ ''aaaa'' @ [LF] @
     ''/home/user/demo/main.cpp:6'' @ [LF]"

text \<open>One pair of lines, the second without its newline.\<close>

definition no_final_newline :: string where
  "no_final_newline = ''main'' @ [LF] @ ''/home/user/demo/main.cpp:6''"

section \<open>Properties of the resolver and of the walker\<close>

text \<open>
  \<^verbatim>\<open>itos\<close> writes the decimal numeral of its argument: digits only, no leading zero,
  the value read back is the argument, and a minus sign before the numeral of the opposite
  for a negative argument.
\<close>

lemma digit_below_ten:
  assumes "d < 10"
  shows "of_char (digit d) - 48 = d" and "digit d \<in> set ''0123456789''" and "digit d \<noteq> LF"
proof -
  from assms have d: "d = 0 \<or> d = 1 \<or> d = 2 \<or> d = 3 \<or> d = 4 \<or> d = 5 \<or> d = 6 \<or>
      d = 7 \<or> d = 8 \<or> d = 9" by arith
  from d show "of_char (digit d) - 48 = d" by (auto simp: digit_def)
  from d show "digit d \<in> set ''0123456789''" by (auto simp: digit_def)
  from d show "digit d \<noteq> LF" by (auto simp: digit_def)
qed

lemma decimal_value_snoc:
  "decimal_value (str @ [c]) = 10 * decimal_value str + (of_char c - 48)"
  by (simp add: decimal_value_def)

lemma decimal_value_digits: "decimal_value (digits n) = n"
proof (induction n rule: digits.induct)
  case (1 n)
  show ?case
  proof (cases "n < 10")
    case True
    then show ?thesis
      by (subst digits.simps) (simp add: decimal_value_def digit_below_ten(1))
  next
    case False
    with "1.IH" have "decimal_value (digits (n div 10)) = n div 10" by simp
    with False show ?thesis
      by (subst digits.simps) (simp add: decimal_value_snoc digit_below_ten(1))
  qed
qed

lemma digits_chars: "set (digits n) \<subseteq> set ''0123456789''"
proof (induction n rule: digits.induct)
  case (1 n)
  show ?case
  proof (cases "n < 10")
    case True
    then show ?thesis
      using digit_below_ten(2) [of n] by (subst digits.simps) simp
  next
    case False
    with "1.IH" have "set (digits (n div 10)) \<subseteq> set ''0123456789''" by simp
    moreover have "digit (n mod 10) \<in> set ''0123456789''"
      by (rule digit_below_ten(2)) simp
    ultimately show ?thesis
      using False by (subst digits.simps) simp
  qed
qed

lemma digits_nonempty: "digits n \<noteq> []"
  by (subst digits.simps) simp

lemma digits_leading: "hd (digits n) = CHR ''0'' \<Longrightarrow> n = 0"
proof (induction n rule: digits.induct)
  case (1 n)
  show ?case
  proof (cases "n < 10")
    case True
    with "1.prems" have "digit n = CHR ''0''"
      by (subst (asm) digits.simps) simp
    then have "of_char (digit n) - 48 = (0::nat)" by simp
    with True show ?thesis by (simp add: digit_below_ten(1))
  next
    case False
    with "1.prems" have "hd (digits (n div 10)) = CHR ''0''"
      by (subst (asm) digits.simps) (simp add: digits_nonempty)
    with "1.IH" False have "n div 10 = 0" by simp
    with False show ?thesis by simp
  qed
qed

lemma itos_decimal:
  "0 \<le> n \<Longrightarrow> itos n \<noteq> [] \<and> set (itos n) \<subseteq> set ''0123456789'' \<and>
     int (decimal_value (itos n)) = n \<and> (hd (itos n) = CHR ''0'' \<longrightarrow> n = 0)"
  "n < 0 \<Longrightarrow> itos n = CHR ''-'' # itos (- n)"
  using digits_chars [of "nat n"] digits_leading [of "nat n"]
  by (auto simp: itos_def digits_nonempty decimal_value_digits)

lemma itos_no_newline: "LF \<notin> set (itos n)"
  using digits_chars [of "nat n"] digits_chars [of "nat (- n)"] by (auto simp: itos_def)

text \<open>
  A line of the output that fits the buffer (fewer than 1033 bytes before its newline) is
  what one \<^verbatim>\<open>fgets\<close> returns; a longer one is read in pieces.
\<close>

lemma fgets_aux_line:
  "LF \<notin> set l \<Longrightarrow> length l < n \<Longrightarrow> fgets_aux n (l @ LF # rest) = (l @ [LF], rest)"
  by (induction l arbitrary: n) auto

lemma fgets_line:
  "LF \<notin> set l \<Longrightarrow> length l < 1033 \<Longrightarrow>
   fgets (1035 - 1) (l @ LF # rest) = Some (l @ [LF], rest)"
  by (simp add: fgets_def fgets_aux_line)

text \<open>One turn of the \<^verbatim>\<open>while\<close> loop, by the way it ends.\<close>

lemma loop_eof:
  "fgets (1035 - 1) fp = None \<Longrightarrow> addr2line_loop a k fp s = (0, pclose s)"
  by (subst addr2line_loop.simps) simp

lemma loop_one_line:
  "fgets (1035 - 1) fp = Some (l1, r1) \<Longrightarrow> fgets (1035 - 1) r1 = None \<Longrightarrow>
   addr2line_loop a k fp s = (1, pclose s)"
  by (subst addr2line_loop.simps) simp

lemma loop_unresolved:
  "fgets (1035 - 1) fp = Some (l1, r1) \<Longrightarrow> fgets (1035 - 1) r1 = Some (l2, r2) \<Longrightarrow>
   first_char l2 = CHR ''?'' \<Longrightarrow> addr2line_loop a k fp s = (1, pclose s)"
  by (subst addr2line_loop.simps) simp

lemma loop_resolved:
  "fgets (1035 - 1) fp = Some (l1, r1) \<Longrightarrow> fgets (1035 - 1) r1 = Some (l2, r2) \<Longrightarrow>
   first_char l2 \<noteq> CHR ''?'' \<Longrightarrow>
   addr2line_loop a k fp s =
     addr2line_loop a k r2
       (s\<lparr>err := err s @ [Resolved k a (c_str (strip_line_end 0 l1))
                              (c_str (drop (lastSlashPos 0 0 l2) l2))]\<rparr>)"
  by (subst addr2line_loop.simps) simp

lemma c_str_strip_line_end:
  "i + length l \<le> 1035 \<Longrightarrow>
   c_str (strip_line_end i l) = takeWhile (\<lambda>c. c \<noteq> CR \<and> c \<noteq> LF) (c_str l)"
  by (induction i l rule: strip_line_end.induct) (auto simp: c_str_def)

lemma lastSlashPos_eq:
  "length pre + length l \<le> 1035 \<Longrightarrow>
   lastSlashPos (length pre) (length (dropWhile (\<lambda>c. c \<noteq> CHR ''/'') (rev pre))) l =
   length (dropWhile (\<lambda>c. c \<noteq> CHR ''/'') (rev (pre @ c_str l)))"
proof (induction l arbitrary: pre)
  case Nil
  then show ?case by (simp add: c_str_def)
next
  case (Cons c cs)
  from Cons.prems have "length (pre @ [c]) + length cs \<le> 1035" by simp
  from Cons.IH [OF this] Cons.prems show ?case
    by (auto simp: c_str_def)
qed

lemma drop_dropWhile_rev:
  "drop (length (dropWhile P (rev b))) b = rev (takeWhile P (rev b))"
proof -
  have "rev b = takeWhile P (rev b) @ dropWhile P (rev b)" by simp
  then have "b = rev (dropWhile P (rev b)) @ rev (takeWhile P (rev b))"
    by (metis rev_append rev_rev_ident)
  then show ?thesis
    by (metis append_eq_conv_conj length_rev)
qed

lemma c_str_drop: "q \<le> length (c_str l) \<Longrightarrow> c_str (drop q l) = drop q (c_str l)"
  by (induction l arbitrary: q) (auto simp: c_str_def drop_Cons split: nat.splits)

lemma location_eq:
  assumes "length l \<le> 1035"
  shows "c_str (drop (lastSlashPos 0 0 l) l) = rev (takeWhile (\<lambda>c. c \<noteq> CHR ''/'') (rev (c_str l)))"
proof -
  have q: "lastSlashPos 0 0 l = length (dropWhile (\<lambda>c. c \<noteq> CHR ''/'') (rev (c_str l)))"
    using lastSlashPos_eq [of "[]" l] assms by simp
  have "lastSlashPos 0 0 l \<le> length (c_str l)"
    unfolding q by (metis length_dropWhile_le length_rev)
  then show ?thesis
    by (simp add: c_str_drop) (simp add: q drop_dropWhile_rev)
qed

lemma printed_fields:
  assumes "fgets (1035 - 1) fp = Some (l1, r1)" and "fgets (1035 - 1) r1 = Some (l2, r2)"
  shows "c_str (strip_line_end 0 l1) = without_line_end (c_str l1)"
    and "c_str (drop (lastSlashPos 0 0 l2) l2) = after_last_slash (c_str l2)"
proof -
  have "length l1 \<le> 1034" and "length l2 \<le> 1034"
    using fgets_Some(3) [OF assms(1)] fgets_Some(3) [OF assms(2)] by simp_all
  then show "c_str (strip_line_end 0 l1) = without_line_end (c_str l1)"
    and "c_str (drop (lastSlashPos 0 0 l2) l2) = after_last_slash (c_str l2)"
    by (simp_all add: c_str_strip_line_end location_eq without_line_end_def after_last_slash_def)
qed

lemma loop_prints:
  assumes "fgets (1035 - 1) fp = Some (l1, r1)" and "fgets (1035 - 1) r1 = Some (l2, r2)"
    and "first_char l2 \<noteq> CHR ''?''"
  shows "addr2line_loop a k fp s =
     addr2line_loop a k r2
       (s\<lparr>err := err s @
          [Resolved k a (without_line_end (c_str l1)) (after_last_slash (c_str l2))]\<rparr>)"
  using loop_resolved [OF assms, of a k s] printed_fields [OF assms(1,2)] by simp

lemma addr2line_loop_effect:
  "\<exists>r evs. addr2line_loop a k fp s = (r, s\<lparr>err := err s @ evs, closed := closed s + 1\<rparr>) \<and>
     (r = 0 \<or> r = 1) \<and>
     (\<forall>e\<in>set evs. \<exists>l1 l2.
        e = Resolved k a (without_line_end (c_str l1)) (after_last_slash (c_str l2)))"
proof (induction a k fp s rule: addr2line_loop.induct)
  case (1 addr lineNb fp s)
  show ?case
  proof (cases "fgets (1035 - 1) fp")
    case None
    then have "addr2line_loop addr lineNb fp s = (0, s\<lparr>err := err s @ [], closed := closed s + 1\<rparr>)"
      by (simp add: loop_eof pclose_def)
    then show ?thesis by (metis empty_iff list.set(1))
  next
    case (Some x)
    then obtain l1 r1 where l1: "fgets (1035 - 1) fp = Some (l1, r1)" by (cases x) auto
    show ?thesis
    proof (cases "fgets (1035 - 1) r1")
      case None
      with l1 have "addr2line_loop addr lineNb fp s = (1, s\<lparr>err := err s @ [], closed := closed s + 1\<rparr>)"
        by (simp add: loop_one_line pclose_def)
      then show ?thesis by (metis empty_iff list.set(1))
    next
      case (Some y)
      then obtain l2 r2 where l2: "fgets (1035 - 1) r1 = Some (l2, r2)" by (cases y) auto
      show ?thesis
      proof (cases "first_char l2 = CHR ''?''")
        case True
        with l1 l2 have "addr2line_loop addr lineNb fp s = (1, s\<lparr>err := err s @ [], closed := closed s + 1\<rparr>)"
          by (simp add: loop_unresolved pclose_def)
        then show ?thesis by (metis empty_iff list.set(1))
      next
        case False
        define ev where "ev = Resolved lineNb addr (without_line_end (c_str l1))
                              (after_last_slash (c_str l2))"
        define s' where "s' = s\<lparr>err := err s @ [ev]\<rparr>"
        have step: "addr2line_loop addr lineNb fp s = addr2line_loop addr lineNb r2 s'"
          using l1 l2 False by (simp add: loop_prints s'_def ev_def)
        from "1.IH" [OF l1 refl l2 refl False]
        have "\<exists>r evs. addr2line_loop addr lineNb r2 s' =
              (r, s'\<lparr>err := err s' @ evs, closed := closed s' + 1\<rparr>) \<and>
            (r = 0 \<or> r = 1) \<and>
            (\<forall>e\<in>set evs. \<exists>l1 l2.
               e = Resolved lineNb addr (without_line_end (c_str l1)) (after_last_slash (c_str l2)))"
          unfolding s'_def ev_def printed_fields [OF l1 l2] .
        then obtain r evs where
          ih: "addr2line_loop addr lineNb r2 s' = (r, s'\<lparr>err := err s' @ evs, closed := closed s' + 1\<rparr>)"
            "r = 0 \<or> r = 1"
            "\<forall>e\<in>set evs. \<exists>l1 l2.
               e = Resolved lineNb addr (without_line_end (c_str l1)) (after_last_slash (c_str l2))"
          by (elim exE conjE) (rule that)
        have "addr2line_loop addr lineNb fp s = (r, s\<lparr>err := err s @ (ev # evs), closed := closed s + 1\<rparr>)"
          using step ih(1) by (simp add: s'_def)
        moreover have "\<forall>e\<in>set (ev # evs). \<exists>l1 l2.
               e = Resolved lineNb addr (without_line_end (c_str l1)) (after_last_slash (c_str l2))"
          using ih(3) by (auto simp: ev_def)
        ultimately show ?thesis using ih(2) by blast
      qed
    qed
  qed
qed

lemma fgets_Nil [simp]: "fgets sz [] = None"
  by (simp add: fgets_def)

lemma loop_one_or_two:
  assumes "one_or_two_lines fp"
  shows "addr2line_loop a k fp s = (1, s\<lparr>closed := closed s + 1\<rparr>) \<or>
         (\<exists>sym loc. addr2line_loop a k fp s =
            (0, s\<lparr>err := err s @ [Resolved k a sym loc], closed := closed s + 1\<rparr>))"
proof -
  from assms obtain l1 r1 where l1: "fgets (1035 - 1) fp = Some (l1, r1)"
    by (auto simp: one_or_two_lines_def split: option.splits)
  show ?thesis
  proof (cases "fgets (1035 - 1) r1")
    case None
    with l1 show ?thesis by (simp add: loop_one_line pclose_def)
  next
    case (Some y)
    then obtain l2 r2 where l2: "fgets (1035 - 1) r1 = Some (l2, r2)" by (cases y) auto
    with assms l1 have r2: "r2 = []" by (simp add: one_or_two_lines_def)
    show ?thesis
    proof (cases "first_char l2 = CHR ''?''")
      case True
      with l1 l2 show ?thesis by (simp add: loop_unresolved pclose_def)
    next
      case False
      with l1 l2 r2 show ?thesis
        by (simp add: loop_prints loop_eof pclose_def) blast
    qed
  qed
qed

lemma addr2line_effect:
  "\<exists>r d evs. addr2line pf prog a k s =
       (r, s\<lparr>err := err s @ evs, spawned := spawned s @ [Addr2line (percent_s 256 prog) a],
              opened := opened s + d, closed := closed s + d\<rparr>) \<and>
     d = (if popen_out pf (length (spawned s)) (Addr2line (percent_s 256 prog) a) = None
          then 0 else 1) \<and>
     (\<forall>e\<in>set evs. \<exists>sym loc. e = Resolved k a sym loc) \<and>
     ((\<forall>n cmd fp. popen_out pf n cmd = Some fp \<longrightarrow> one_or_two_lines fp) \<longrightarrow>
        (r \<noteq> 0 \<and> evs = []) \<or> (r = 0 \<and> (\<exists>sym loc. evs = [Resolved k a sym loc])))"
proof (cases "popen_out pf (length (spawned s)) (Addr2line (percent_s 256 prog) a)")
  case None
  then have "addr2line pf prog a k s =
      (1, s\<lparr>err := err s @ [], spawned := spawned s @ [Addr2line (percent_s 256 prog) a],
              opened := opened s + 0, closed := closed s + 0\<rparr>)"
    by (simp add: addr2line_def popen_def)
  moreover have "(0::nat) =
      (if popen_out pf (length (spawned s)) (Addr2line (percent_s 256 prog) a) = None
       then 0 else 1)"
    using None by simp
  moreover have "\<forall>e\<in>set ([]::'a out list). \<exists>sym loc. e = Resolved k a sym loc" by simp
  moreover have "(\<forall>n cmd fp. popen_out pf n cmd = Some fp \<longrightarrow> one_or_two_lines fp) \<longrightarrow>
        ((1::int) \<noteq> 0 \<and> ([]::'a out list) = []) \<or>
        ((1::int) = 0 \<and> (\<exists>sym loc. ([]::'a out list) = [Resolved k a sym loc]))"
    by simp
  ultimately show ?thesis
    by (intro exI [of _ 1] exI [of _ 0] exI [of _ "[]"] conjI)
next
  case (Some fp)
  define s1 where "s1 = s\<lparr>spawned := spawned s @ [Addr2line (percent_s 256 prog) a],
                             opened := opened s + 1\<rparr>"
  have a: "addr2line pf prog a k s = addr2line_loop a k fp s1"
    using Some by (simp add: addr2line_def popen_def s1_def)
  from addr2line_loop_effect [of a k fp s1] obtain r evs where
    l: "addr2line_loop a k fp s1 = (r, s1\<lparr>err := err s1 @ evs, closed := closed s1 + 1\<rparr>)"
       "\<forall>e\<in>set evs. \<exists>sym loc. e = Resolved k a sym loc"
    by blast
  have 1: "addr2line pf prog a k s =
      (r, s\<lparr>err := err s @ evs, spawned := spawned s @ [Addr2line (percent_s 256 prog) a],
              opened := opened s + 1, closed := closed s + 1\<rparr>)"
    using a l(1) by (simp add: s1_def)
  have 2: "(1::nat) =
      (if popen_out pf (length (spawned s)) (Addr2line (percent_s 256 prog) a) = None
       then 0 else 1)"
    using Some by simp
  have e: "err (snd (addr2line_loop a k fp s1)) = err s1 @ evs"
    and f: "fst (addr2line_loop a k fp s1) = r"
    using l(1) by simp_all
  have "(r \<noteq> 0 \<and> evs = []) \<or> (r = 0 \<and> (\<exists>sym loc. evs = [Resolved k a sym loc]))"
    if "one_or_two_lines fp"
    using loop_one_or_two [OF that, of a k s1] e f by auto
  with Some have 3: "(\<forall>n cmd fp. popen_out pf n cmd = Some fp \<longrightarrow> one_or_two_lines fp) \<longrightarrow>
        (r \<noteq> 0 \<and> evs = []) \<or> (r = 0 \<and> (\<exists>sym loc. evs = [Resolved k a sym loc]))"
    by blast
  from 1 2 l(2) 3 show ?thesis
    by (intro exI [of _ r] exI [of _ 1] exI [of _ evs] conjI)
qed

lemma frame_effect:
  "\<exists>d evs. print_stacktrace_frame pf buffer strings nptrs i s =
       s\<lparr>err := err s @ evs,
         spawned := spawned s @ [Addr2line (percent_s 256 (programName s)) (buffer ! nat i)],
         opened := opened s + d, closed := closed s + d\<rparr> \<and>
     (\<forall>e\<in>set evs. frame_line buffer strings nptrs i e) \<and>
     ((\<forall>n cmd fp. popen_out pf n cmd = Some fp \<longrightarrow> one_or_two_lines fp) \<longrightarrow>
        map printed_index evs = [Some (nptrs - 2 - i - 1)])"
proof -
  let ?k = "nptrs - 2 - i - 1" and ?a = "buffer ! nat i"
  from addr2line_effect [of pf "programName s" ?a ?k s] obtain r d evs where
    a: "addr2line pf (programName s) ?a ?k s =
       (r, s\<lparr>err := err s @ evs, spawned := spawned s @ [Addr2line (percent_s 256 (programName s)) ?a],
              opened := opened s + d, closed := closed s + d\<rparr>)"
    and d: "d = (if popen_out pf (length (spawned s)) (Addr2line (percent_s 256 (programName s)) ?a) = None
          then 0 else 1)"
    and r: "\<forall>e\<in>set evs. \<exists>sym loc. e = Resolved ?k ?a sym loc"
    and h: "(\<forall>n cmd fp. popen_out pf n cmd = Some fp \<longrightarrow> one_or_two_lines fp) \<longrightarrow>
        (r \<noteq> 0 \<and> evs = []) \<or> (r = 0 \<and> (\<exists>sym loc. evs = [Resolved ?k ?a sym loc]))"
    by blast
  define evs' where "evs' = (if r \<noteq> 0 then evs @ [Fallback ?k (strings ! nat i)] else evs)"
  have "print_stacktrace_frame pf buffer strings nptrs i s =
       s\<lparr>err := err s @ evs',
         spawned := spawned s @ [Addr2line (percent_s 256 (programName s)) ?a],
         opened := opened s + d, closed := closed s + d\<rparr>"
    using a by (simp add: print_stacktrace_frame_def getProgramName_def evs'_def)
  moreover have "\<forall>e\<in>set evs'. frame_line buffer strings nptrs i e"
    using r by (auto simp: evs'_def frame_line_def)
  moreover have "(\<forall>n cmd fp. popen_out pf n cmd = Some fp \<longrightarrow> one_or_two_lines fp) \<longrightarrow>
        map printed_index evs' = [Some ?k]"
    using h by (auto simp: evs'_def)
  ultimately show ?thesis
    by (intro exI [of _ d] exI [of _ evs'] conjI)
qed

lemma loop_effect:
  "\<exists>d new. print_stacktrace_loop pf buffer strings nptrs i s =
       s\<lparr>err := err s @ new,
         spawned := spawned s @
           map (\<lambda>j. Addr2line (percent_s 256 (programName s)) (buffer ! nat j)) [i..nptrs - 3],
         opened := opened s + d, closed := closed s + d\<rparr> \<and>
     (\<forall>e\<in>set new. \<exists>j. i \<le> j \<and> j < nptrs - 2 \<and> frame_line buffer strings nptrs j e) \<and>
     ((\<forall>n cmd fp. popen_out pf n cmd = Some fp \<longrightarrow> one_or_two_lines fp) \<longrightarrow>
        map printed_index new = map (\<lambda>j. Some (nptrs - 2 - j - 1)) [i..nptrs - 3])"
proof (induction pf buffer strings nptrs i s rule: print_stacktrace_loop.induct)
  case (1 pf buffer strings nptrs i s)
  let ?H = "\<forall>n cmd fp. popen_out pf n cmd = Some fp \<longrightarrow> one_or_two_lines fp"
  let ?cmd = "\<lambda>j. Addr2line (percent_s 256 (programName s)) (buffer ! nat j)"
  show ?case
  proof (cases "i < nptrs - 2")
    case False
    then have "print_stacktrace_loop pf buffer strings nptrs i s =
        s\<lparr>err := err s @ [], spawned := spawned s @ map ?cmd [i..nptrs - 3],
          opened := opened s + 0, closed := closed s + 0\<rparr>"
      by (subst print_stacktrace_loop.simps) simp
    moreover have "\<forall>e\<in>set ([]::'a out list).
        \<exists>j. i \<le> j \<and> j < nptrs - 2 \<and> frame_line buffer strings nptrs j e" by simp
    moreover have "?H \<longrightarrow> map printed_index ([]::'a out list) =
        map (\<lambda>j. Some (nptrs - 2 - j - 1)) [i..nptrs - 3]"
      using False by simp
    ultimately show ?thesis
      by (intro exI [of _ 0] exI [of _ "[]"] conjI)
  next
    case True
    define s1 where "s1 = print_stacktrace_frame pf buffer strings nptrs i s"
    have "\<exists>d evs. s1 = s\<lparr>err := err s @ evs, spawned := spawned s @ [?cmd i],
                 opened := opened s + d, closed := closed s + d\<rparr> \<and>
         (\<forall>e\<in>set evs. frame_line buffer strings nptrs i e) \<and>
         (?H \<longrightarrow> map printed_index evs = [Some (nptrs - 2 - i - 1)])"
      unfolding s1_def by (rule frame_effect)
    then obtain d evs where
      f: "s1 = s\<lparr>err := err s @ evs, spawned := spawned s @ [?cmd i],
                 opened := opened s + d, closed := closed s + d\<rparr>"
      and fl: "\<forall>e\<in>set evs. frame_line buffer strings nptrs i e"
      and fh: "?H \<longrightarrow> map printed_index evs = [Some (nptrs - 2 - i - 1)]"
      by (elim exE conjE) (rule that)
    from "1.IH" [OF True] have "\<exists>d' new. print_stacktrace_loop pf buffer strings nptrs (i + 1) s1 =
          s1\<lparr>err := err s1 @ new,
             spawned := spawned s1 @
               map (\<lambda>j. Addr2line (percent_s 256 (programName s1)) (buffer ! nat j)) [i + 1..nptrs - 3],
             opened := opened s1 + d', closed := closed s1 + d'\<rparr> \<and>
       (\<forall>e\<in>set new. \<exists>j. i + 1 \<le> j \<and> j < nptrs - 2 \<and> frame_line buffer strings nptrs j e) \<and>
       (?H \<longrightarrow> map printed_index new = map (\<lambda>j. Some (nptrs - 2 - j - 1)) [i + 1..nptrs - 3])"
      unfolding s1_def .
    then obtain d' new where
      l: "print_stacktrace_loop pf buffer strings nptrs (i + 1) s1 =
          s1\<lparr>err := err s1 @ new,
             spawned := spawned s1 @
               map (\<lambda>j. Addr2line (percent_s 256 (programName s1)) (buffer ! nat j)) [i + 1..nptrs - 3],
             opened := opened s1 + d', closed := closed s1 + d'\<rparr>"
      and ll: "\<forall>e\<in>set new. \<exists>j. i + 1 \<le> j \<and> j < nptrs - 2 \<and> frame_line buffer strings nptrs j e"
      and lh: "?H \<longrightarrow> map printed_index new = map (\<lambda>j. Some (nptrs - 2 - j - 1)) [i + 1..nptrs - 3]"
      by (elim exE conjE) (rule that)
    have up: "[i..nptrs - 3] = i # [i + 1..nptrs - 3]"
      using True by (simp add: upto_rec1)
    have "print_stacktrace_loop pf buffer strings nptrs i s =
          print_stacktrace_loop pf buffer strings nptrs (i + 1) s1"
      using True by (subst print_stacktrace_loop.simps) (simp add: s1_def)
    also have "\<dots> = s\<lparr>err := err s @ (evs @ new),
         spawned := spawned s @ map ?cmd [i..nptrs - 3],
         opened := opened s + (d + d'), closed := closed s + (d + d')\<rparr>"
      unfolding l by (simp add: f up)
    finally have 1: "print_stacktrace_loop pf buffer strings nptrs i s =
        s\<lparr>err := err s @ (evs @ new),
         spawned := spawned s @ map ?cmd [i..nptrs - 3],
         opened := opened s + (d + d'), closed := closed s + (d + d')\<rparr>" .
    have 2: "\<forall>e\<in>set (evs @ new). \<exists>j. i \<le> j \<and> j < nptrs - 2 \<and> frame_line buffer strings nptrs j e"
    proof
      fix e assume "e \<in> set (evs @ new)"
      then consider "e \<in> set evs" | "e \<in> set new" by auto
      then show "\<exists>j. i \<le> j \<and> j < nptrs - 2 \<and> frame_line buffer strings nptrs j e"
      proof cases
        case 1
        with fl True show ?thesis by blast
      next
        case 2
        with ll obtain j where "i + 1 \<le> j" "j < nptrs - 2" "frame_line buffer strings nptrs j e"
          by blast
        then show ?thesis by (intro exI [of _ j]) simp
      qed
    qed
    have 3: "?H \<longrightarrow> map printed_index (evs @ new) =
        map (\<lambda>j. Some (nptrs - 2 - j - 1)) [i..nptrs - 3]"
      using fh lh by (simp add: up)
    from 1 2 3 show ?thesis
      by (intro exI [of _ "d + d'"] exI [of _ "evs @ new"] conjI)
  qed
qed

lemma map_upto_minus: "map (\<lambda>j. m - j) [i..m] = rev [0..m - i]"
proof (induction i m rule: upto.induct)
  case (1 i j)
  show ?case
  proof (cases "i \<le> j")
    case True
    have "[0..j - i] = [0..j - (i + 1)] @ [j - i]"
      using True upto_rec2 [of 0 "j - i"] by (simp add: algebra_simps)
    with True "1.IH" show ?thesis by (simp add: upto_rec1)
  next
    case False
    then show ?thesis by simp
  qed
qed

lemma map_nth_upto:
  "0 \<le> i \<Longrightarrow> j < int (length xs) \<Longrightarrow>
   map (\<lambda>k. xs ! nat k) [i..j] = drop (nat i) (take (nat (j + 1)) xs)"
proof (induction i j rule: upto.induct)
  case (1 i j)
  show ?case
  proof (cases "i \<le> j")
    case True
    with "1.prems" have lt: "nat i < length (take (nat (j + 1)) xs)" by simp
    have "map (\<lambda>k. xs ! nat k) [i..j] = xs ! nat i # drop (nat (i + 1)) (take (nat (j + 1)) xs)"
      using True "1.IH" "1.prems" by (simp add: upto_rec1)
    also have "xs ! nat i = take (nat (j + 1)) xs ! nat i"
      using True "1.prems" by simp
    also have "nat (i + 1) = Suc (nat i)" using "1.prems" by simp
    finally show ?thesis using Cons_nth_drop_Suc [OF lt] by simp
  next
    case False
    with "1.prems" show ?thesis by simp
  qed
qed

lemma print_stacktrace_returns:
  "\<not> symbols_fail pf \<Longrightarrow> \<exists>s1. print_stacktrace pf c s = (Return, s1)"
  by (simp add: print_stacktrace_def backtrace_symbols_def Let_def)

lemmas signal_defs = SIGABRT_def SIGFPE_def SIGILL_def SIGINT_def SIGSEGV_def SIGTERM_def

lemma without_line_end_props:
  "CR \<notin> set (without_line_end str)" "LF \<notin> set (without_line_end str)"
  "\<exists>post. str = without_line_end str @ post \<and> (post = [] \<or> hd post = CR \<or> hd post = LF)"
proof -
  show "CR \<notin> set (without_line_end str)" "LF \<notin> set (without_line_end str)"
    by (auto simp: without_line_end_def dest: set_takeWhileD)
  let ?post = "dropWhile (\<lambda>c. c \<noteq> CR \<and> c \<noteq> LF) str"
  have "str = without_line_end str @ ?post" by (simp add: without_line_end_def)
  moreover have "?post = [] \<or> hd ?post = CR \<or> hd ?post = LF"
    using hd_dropWhile [of "\<lambda>c. c \<noteq> CR \<and> c \<noteq> LF" str] by blast
  ultimately show "\<exists>post. str = without_line_end str @ post \<and>
      (post = [] \<or> hd post = CR \<or> hd post = LF)" by blast
qed

lemma after_last_slash_props:
  "CHR ''/'' \<notin> set (after_last_slash str)"
  "\<exists>pre. str = pre @ after_last_slash str \<and> (pre = [] \<or> last pre = CHR ''/'')"
proof -
  show "CHR ''/'' \<notin> set (after_last_slash str)"
    by (auto simp: after_last_slash_def dest: set_takeWhileD)
  let ?d = "dropWhile (\<lambda>c. c \<noteq> CHR ''/'') (rev str)"
  have "rev str = rev (after_last_slash str) @ ?d" by (simp add: after_last_slash_def)
  then have "str = rev ?d @ after_last_slash str"
    by (metis rev_append rev_rev_ident)
  moreover have "rev ?d = [] \<or> last (rev ?d) = CHR ''/''"
    using hd_dropWhile [of "\<lambda>c. c \<noteq> CHR ''/''" "rev str"] by (auto simp: last_rev)
  ultimately show "\<exists>pre. str = pre @ after_last_slash str \<and> (pre = [] \<or> last pre = CHR ''/'')"
    by blast
qed

lemma print_stacktrace_effect:
  assumes "\<not> symbols_fail pf" and "buffer = backtrace pf MAX_BACKTRACE_LINES"
    and "i = (if c \<noteq> 0 then 2 else 1)" and "nptrs = int (length buffer)"
  shows "\<exists>d new. print_stacktrace pf c s =
       (Return,
        s\<lparr>err := err s @ new,
          spawned := spawned s @
            map (\<lambda>j. Addr2line (percent_s 256 (programName s)) (buffer ! nat j)) [i..nptrs - 3],
          opened := opened s + d, closed := closed s + d\<rparr>) \<and>
     (\<forall>e\<in>set new. \<exists>j. i \<le> j \<and> j < nptrs - 2 \<and>
        frame_line buffer (map (symbol_of pf) buffer) nptrs j e) \<and>
     ((\<forall>n cmd fp. popen_out pf n cmd = Some fp \<longrightarrow> one_or_two_lines fp) \<longrightarrow>
        map printed_index new = map (\<lambda>j. Some (nptrs - 2 - j - 1)) [i..nptrs - 3])"
proof -
  have p: "print_stacktrace pf c s =
      (Return, print_stacktrace_loop pf buffer (map (symbol_of pf) buffer) nptrs i s)"
    using assms by (simp add: print_stacktrace_def backtrace_symbols_def Let_def)
  show ?thesis
    unfolding p prod.inject using loop_effect [of pf buffer "map (symbol_of pf) buffer" nptrs i s]
    by simp
qed

text \<open>The equations that run the model on a concrete platform.\<close>

lemmas run_simps =
  print_stacktrace_def backtrace_def backtrace_symbols_def MAX_BACKTRACE_LINES_def
  print_stacktrace_loop.simps print_stacktrace_frame_def getProgramName_def
  addr2line_def popen_def percent_s_def addr2line_loop.simps fgets_def pclose_def
  first_char_def c_str_def itos_def digits.simps digit_def
  five_frames_def fresh_def

lemma one_or_two_lines_main: "one_or_two_lines main_line"
  by (simp add: one_or_two_lines_def fgets_def main_line_def)

text \<open>
  More on \<^verbatim>\<open>fgets\<close>: a last line without newline, a line that fills the buffer, a
  line that starts with a question mark.
\<close>

lemma fgets_aux_eof:
  "LF \<notin> set l \<Longrightarrow> length l \<le> n \<Longrightarrow> fgets_aux n l = (l, [])"
  by (induction l arbitrary: n) auto

lemma fgets_aux_full:
  "LF \<notin> set l \<Longrightarrow> length l = n \<Longrightarrow> fgets_aux n (l @ rest) = (l, rest)"
proof (induction l arbitrary: n)
  case Nil
  then show ?case by (cases rest) simp_all
next
  case (Cons c l)
  then show ?case by auto
qed

lemma fgets_full:
  "LF \<notin> set l \<Longrightarrow> length l = 1033 \<Longrightarrow> fgets (1035 - 1) (l @ rest) = Some (l, rest)"
  by (auto simp: fgets_def fgets_aux_full)

lemma fgets_last_line:
  assumes "LF \<notin> set l" and "length l < 1033" and "tail = [] \<or> hd tail = LF"
    and "l @ tail \<noteq> []"
  shows "fgets (1035 - 1) (l @ tail) = Some (l @ take 1 tail, drop 1 tail)"
proof (cases tail)
  case Nil
  with assms show ?thesis by (simp add: fgets_def fgets_aux_eof)
next
  case (Cons c rest)
  with assms(3) have "tail = LF # rest" by simp
  with assms(1,2) show ?thesis using fgets_line [of l rest] by simp
qed


lemma c_str_line: "without_line_end (c_str (l @ [LF])) = without_line_end (c_str l)"
  by (induction l) (simp_all add: c_str_def without_line_end_def)


lemma resolved_reads:
  assumes "popen_out pf (length (spawned s)) (Addr2line (percent_s 256 prog) addr) = Some fp"
    and "fgets (1035 - 1) fp = Some (outLine1, fp1)"
    and "fgets (1035 - 1) fp1 = Some (outLine2, fp2)"
    and "first_char outLine2 \<noteq> CHR ''?''"
  shows "(\<exists>more. err (snd (addr2line pf prog addr lineNb s)) =
            err s @ Resolved lineNb addr (without_line_end (c_str outLine1))
                      (after_last_slash (c_str outLine2)) # more) \<and>
         CR \<notin> set (without_line_end (c_str outLine1)) \<and>
         LF \<notin> set (without_line_end (c_str outLine1)) \<and>
         (\<exists>post. c_str outLine1 = without_line_end (c_str outLine1) @ post \<and>
            (post = [] \<or> hd post = CR \<or> hd post = LF)) \<and>
         CHR ''/'' \<notin> set (after_last_slash (c_str outLine2)) \<and>
         (\<exists>pre. c_str outLine2 = pre @ after_last_slash (c_str outLine2) \<and>
            (pre = [] \<or> last pre = CHR ''/''))"
proof -
  define s1 where "s1 = s\<lparr>spawned := spawned s @ [Addr2line (percent_s 256 prog) addr],
                             opened := opened s + 1\<rparr>"
  define ev where "ev = Resolved lineNb addr (without_line_end (c_str outLine1))
                      (after_last_slash (c_str outLine2))"
  define s2 where "s2 = s1\<lparr>err := err s1 @ [ev]\<rparr>"
  have "addr2line pf prog addr lineNb s = addr2line_loop addr lineNb fp s1"
    using assms(1) by (simp add: addr2line_def popen_def s1_def)
  also have "\<dots> = addr2line_loop addr lineNb fp2 s2"
    using loop_prints [OF assms(2-4)] by (simp add: s2_def ev_def)
  finally have a: "addr2line pf prog addr lineNb s = addr2line_loop addr lineNb fp2 s2" .
  from addr2line_loop_effect [of addr lineNb fp2 s2] obtain r evs where
    "addr2line_loop addr lineNb fp2 s2 = (r, s2\<lparr>err := err s2 @ evs, closed := closed s2 + 1\<rparr>)"
    by blast
  with a have "err (snd (addr2line pf prog addr lineNb s)) = err s @ ev # evs"
    by (simp add: s2_def s1_def)
  then have "\<exists>more. err (snd (addr2line pf prog addr lineNb s)) =
            err s @ Resolved lineNb addr (without_line_end (c_str outLine1))
                      (after_last_slash (c_str outLine2)) # more"
    unfolding ev_def by blast
  then show ?thesis
    using without_line_end_props [of "c_str outLine1"] after_last_slash_props [of "c_str outLine2"]
    by (intro conjI)
qed

text \<open>Lines of text are their own C strings and their own beginning.\<close>

lemma c_str_text: "NUL \<notin> set l \<Longrightarrow> c_str l = l"
  by (auto simp: c_str_def takeWhile_eq_all_conv)

lemma without_line_end_text: "CR \<notin> set l \<Longrightarrow> LF \<notin> set l \<Longrightarrow> without_line_end l = l"
  by (auto simp: without_line_end_def takeWhile_eq_all_conv)

lemma first_char_take:
  "l @ tail \<noteq> [] \<Longrightarrow> first_char (l @ take 1 tail) = first_char (l @ tail)"
  by (cases l; cases tail) (simp_all add: first_char_def)

text \<open>The first turn of the loop on a first line that fills one buffer or two.\<close>

lemma long_name_reads:
  "fgets (1035 - 1) (long_name @ LF # rest) = Some (replicate 1033 CHR ''a'', ''aaaaaaa'' @ LF # rest)"
  "fgets (1035 - 1) (''aaaaaaa'' @ LF # rest) = Some (''aaaaaaa'' @ [LF], rest)"
  "without_line_end (c_str (replicate 1033 CHR ''a'')) = replicate 1033 CHR ''a''"
  "after_last_slash (c_str (''aaaaaaa'' @ [LF])) = ''aaaaaaa'' @ [LF]"
proof -
  show "fgets (1035 - 1) (long_name @ LF # rest) =
      Some (replicate 1033 CHR ''a'', ''aaaaaaa'' @ LF # rest)"
    using fgets_full [of "replicate 1033 CHR ''a''" "''aaaaaaa'' @ LF # rest"]
    by (simp add: long_name_def)
  show "fgets (1035 - 1) (''aaaaaaa'' @ LF # rest) = Some (''aaaaaaa'' @ [LF], rest)"
    by (simp add: fgets_def)
  show "without_line_end (c_str (replicate 1033 CHR ''a'')) = replicate 1033 CHR ''a''"
    by (simp add: without_line_end_def c_str_def takeWhile_replicate)
  show "after_last_slash (c_str (''aaaaaaa'' @ [LF])) = ''aaaaaaa'' @ [LF]"
    by (simp add: after_last_slash_def c_str_def)
qed

lemma long_name_turn:
  "addr2line_loop a k (long_name @ LF # rest) s =
   addr2line_loop a k rest
     (s\<lparr>err := err s @ [Resolved k a (replicate 1033 CHR ''a'') (''aaaaaaa'' @ [LF])]\<rparr>)"
  using loop_prints [OF long_name_reads(1) long_name_reads(2)]
  by (simp add: first_char_def after_last_slash_def without_line_end_def c_str_def
      takeWhile_replicate)

lemma full_buffers_turn:
  "addr2line_loop a k (replicate 1033 CHR ''a'' @ replicate 1033 CHR ''a'' @ rest) s =
   addr2line_loop a k rest
     (s\<lparr>err := err s @ [Resolved k a (replicate 1033 CHR ''a'') (replicate 1033 CHR ''a'')]\<rparr>)"
proof -
  have 1: "fgets (1035 - 1) (replicate 1033 CHR ''a'' @ replicate 1033 CHR ''a'' @ rest) =
      Some (replicate 1033 CHR ''a'', replicate 1033 CHR ''a'' @ rest)"
    by (rule fgets_full) simp_all
  have 2: "fgets (1035 - 1) (replicate 1033 CHR ''a'' @ rest) = Some (replicate 1033 CHR ''a'', rest)"
    by (rule fgets_full) simp_all
  have "first_char (replicate n c) = c" if "0 < n" for n and c :: char
    using that by (cases n) (simp_all add: first_char_def)
  then have 3: "first_char (replicate 1033 CHR ''a'') \<noteq> CHR ''?''" by simp
  show ?thesis
    using loop_prints [OF 1 2 3]
    by (simp add: after_last_slash_def without_line_end_def c_str_def takeWhile_replicate)
qed

text \<open>
  The walk when every resolver writes one or two lines of text: one record per frame, each
  of them one line of output.
\<close>

lemma fgets_aux_newline: "fgets_aux n cs = (l, r) \<Longrightarrow> LF \<notin> set (butlast l)"
  by (induction n cs arbitrary: l r rule: fgets_aux.induct)
     (auto split: if_splits prod.splits)

lemma after_last_slash_line:
  "after_last_slash (b @ [LF]) = after_last_slash b @ [LF]"
  by (simp add: after_last_slash_def)

lemma after_last_slash_subset: "set (after_last_slash b) \<subseteq> set b"
  by (auto simp: after_last_slash_def dest: set_takeWhileD)

lemma loop_text_answer:
  assumes "text_answer fp"
  shows "addr2line_loop a k fp s = (1, s\<lparr>closed := closed s + 1\<rparr>) \<or>
         (\<exists>sym loc. addr2line_loop a k fp s =
            (0, s\<lparr>err := err s @ [Resolved k a sym loc], closed := closed s + 1\<rparr>) \<and>
            LF \<notin> set sym \<and> one_line loc)"
proof -
  from assms have o: "one_or_two_lines fp" and nul: "NUL \<notin> set fp" and nl: "last fp = LF"
    by (simp_all add: text_answer_def)
  from o obtain l1 r1 where l1: "fgets (1035 - 1) fp = Some (l1, r1)"
    by (auto simp: one_or_two_lines_def split: option.splits)
  show ?thesis
  proof (cases "fgets (1035 - 1) r1")
    case None
    with l1 show ?thesis by (simp add: loop_one_line pclose_def)
  next
    case (Some y)
    then obtain l2 r2 where l2: "fgets (1035 - 1) r1 = Some (l2, r2)" by (cases y) auto
    with o l1 have r2: "r2 = []" by (simp add: one_or_two_lines_def)
    show ?thesis
    proof (cases "first_char l2 = CHR ''?''")
      case True
      with l1 l2 show ?thesis by (simp add: loop_unresolved pclose_def)
    next
      case False
      have fp: "fp = l1 @ l2" and ne: "l2 \<noteq> []"
        using fgets_Some(1) [OF l1] fgets_Some(1,2) [OF l2] r2 by simp_all
      from fp ne nl have last: "last l2 = LF" by simp
      from fp nul have "NUL \<notin> set l2" by simp
      then have c: "c_str l2 = l2" by (rule c_str_text)
      from l2 have "fgets_aux (1035 - 1 - 1) r1 = (l2, r2)"
        by (auto simp: fgets_def split: if_splits)
      then have inner: "LF \<notin> set (butlast l2)" by (rule fgets_aux_newline)
      from ne last have l2': "l2 = butlast l2 @ [LF]" by (metis append_butlast_last_id)
      have "after_last_slash l2 = after_last_slash (butlast l2) @ [LF]"
        by (subst l2') (rule after_last_slash_line)
      moreover have "LF \<notin> set (after_last_slash (butlast l2))"
        using inner after_last_slash_subset [of "butlast l2"] by blast
      ultimately have loc: "one_line (after_last_slash (c_str l2))"
        by (simp add: one_line_def c)
      have sym: "LF \<notin> set (without_line_end (c_str l1))"
        by (rule without_line_end_props(2))
      have "addr2line_loop a k fp s =
            (0, s\<lparr>err := err s @ [Resolved k a (without_line_end (c_str l1))
                                       (after_last_slash (c_str l2))],
                   closed := closed s + 1\<rparr>)"
        using l1 l2 r2 False by (simp add: loop_prints loop_eof pclose_def)
      with sym loc show ?thesis by blast
    qed
  qed
qed

lemma addr2line_text:
  assumes "\<forall>n cmd fp. popen_out pf n cmd = Some fp \<longrightarrow> text_answer fp"
  shows "(fst (addr2line pf prog a k s) \<noteq> 0 \<and> err (snd (addr2line pf prog a k s)) = err s) \<or>
         (fst (addr2line pf prog a k s) = 0 \<and>
          (\<exists>sym loc. err (snd (addr2line pf prog a k s)) = err s @ [Resolved k a sym loc] \<and>
             LF \<notin> set sym \<and> one_line loc))"
proof (cases "popen_out pf (length (spawned s)) (Addr2line (percent_s 256 prog) a)")
  case None
  then show ?thesis by (simp add: addr2line_def popen_def)
next
  case (Some fp)
  define s1 where "s1 = s\<lparr>spawned := spawned s @ [Addr2line (percent_s 256 prog) a],
                             opened := opened s + 1\<rparr>"
  have a: "addr2line pf prog a k s = addr2line_loop a k fp s1"
    using Some by (simp add: addr2line_def popen_def s1_def)
  from assms Some have "text_answer fp" by blast
  from loop_text_answer [OF this, of a k s1] show ?thesis
    unfolding a by (auto simp: s1_def)
qed

lemma frame_text:
  assumes "\<forall>n cmd fp. popen_out pf n cmd = Some fp \<longrightarrow> text_answer fp"
  shows "\<exists>e. err (print_stacktrace_frame pf buffer strings nptrs i s) = err s @ [e] \<and>
             line_record buffer strings nptrs i e"
  using addr2line_text [OF assms, of "getProgramName s" "buffer ! nat i" "nptrs - 2 - i - 1" s]
  by (auto simp: print_stacktrace_frame_def line_record_def split: prod.splits)

lemma walk_text:
  assumes "\<forall>n cmd fp. popen_out pf n cmd = Some fp \<longrightarrow> text_answer fp"
  shows "\<exists>new. err (print_stacktrace_loop pf buffer strings nptrs i s) = err s @ new \<and>
     list_all2 (line_record buffer strings nptrs) [i..nptrs - 3] new"
  using assms
proof (induction pf buffer strings nptrs i s rule: print_stacktrace_loop.induct)
  case (1 pf buffer strings nptrs i s)
  show ?case
  proof (cases "i < nptrs - 2")
    case False
    then have "print_stacktrace_loop pf buffer strings nptrs i s = s"
      by (subst print_stacktrace_loop.simps) simp
    with False show ?thesis by simp
  next
    case True
    define s1 where "s1 = print_stacktrace_frame pf buffer strings nptrs i s"
    from frame_text [OF "1.prems", of buffer strings nptrs i s] obtain e where
      e: "err s1 = err s @ [e]" "line_record buffer strings nptrs i e"
      unfolding s1_def by blast
    from "1.IH" [OF True "1.prems"] obtain new where
      new: "err (print_stacktrace_loop pf buffer strings nptrs (i + 1) s1) = err s1 @ new"
        "list_all2 (line_record buffer strings nptrs) [i + 1..nptrs - 3] new"
      unfolding s1_def by blast
    have up: "[i..nptrs - 3] = i # [i + 1..nptrs - 3]"
      using True by (simp add: upto_rec1)
    have "print_stacktrace_loop pf buffer strings nptrs i s =
          print_stacktrace_loop pf buffer strings nptrs (i + 1) s1"
      using True by (subst print_stacktrace_loop.simps) (simp add: s1_def)
    with e new have "err (print_stacktrace_loop pf buffer strings nptrs i s) = err s @ (e # new)"
      and "list_all2 (line_record buffer strings nptrs) [i..nptrs - 3] (e # new)"
      by (simp_all add: up)
    then show ?thesis by blast
  qed
qed

lemma list_all2_printed_index:
  "list_all2 (\<lambda>k e. printed_index e = Some k) ks evs \<Longrightarrow> map printed_index evs = map Some ks"
  by (induction ks evs rule: list_all2_induct) simp_all

lemma line_record_text:
  assumes "line_record buffer (map (symbol_of pf) buffer) nptrs j e"
    and "0 \<le> j" and "j < int (length buffer)"
    and "\<forall>a. LF \<notin> set (symbol_of pf a)" and "\<forall>a. LF \<notin> set (showp a)"
  shows "printed_index e = Some (nptrs - 3 - j) \<and>
     (\<exists>body. render showp errno_text e = ''['' @ itos (nptrs - 3 - j) @ ''] '' @ body @ [LF] \<and>
        LF \<notin> set (''['' @ itos (nptrs - 3 - j) @ ''] '' @ body))"
proof -
  have k: "nptrs - 2 - j - 1 = nptrs - 3 - j" by simp
  from assms(1) consider
      "e = Fallback (nptrs - 3 - j) (map (symbol_of pf) buffer ! nat j)"
    | sym loc where "e = Resolved (nptrs - 3 - j) (buffer ! nat j) sym loc"
        "LF \<notin> set sym" "one_line loc"
    unfolding line_record_def k by blast
  then show ?thesis
  proof cases
    case 1
    have "map (symbol_of pf) buffer ! nat j = symbol_of pf (buffer ! nat j)"
      using assms(2,3) by simp
    with 1 assms(4) show ?thesis by (simp add: itos_no_newline)
  next
    case 2
    from 2(3) have loc: "loc = butlast loc @ [LF]" "LF \<notin> set (butlast loc)"
      by (simp_all add: one_line_def) (metis append_butlast_last_id)
    have "render showp errno_text e =
        ''['' @ itos (nptrs - 3 - j) @ ''] '' @
        (showp (buffer ! nat j) @ '' in '' @ sym @ '' at '' @ butlast loc) @ [LF]"
      using 2(1) loc(1) by simp
    moreover have "LF \<notin> set (''['' @ itos (nptrs - 3 - j) @ ''] '' @
        (showp (buffer ! nat j) @ '' in '' @ sym @ '' at '' @ butlast loc))"
      using 2(2) loc(2) assms(5) by (simp add: itos_no_newline)
    ultimately have "\<exists>body. render showp errno_text e =
          ''['' @ itos (nptrs - 3 - j) @ ''] '' @ body @ [LF] \<and>
        LF \<notin> set (''['' @ itos (nptrs - 3 - j) @ ''] '' @ body)"
      by (intro exI [of _ "showp (buffer ! nat j) @ '' in '' @ sym @ '' at '' @ butlast loc"] conjI)
    with 2(1) show ?thesis by simp
  qed
qed

lemma text_answer_main: "text_answer main_line"
  by (simp add: text_answer_def one_or_two_lines_def fgets_def main_line_def)

section \<open>The claims\<close>

text \<open>
  C1, as stated, fails in two ways that follow from how \<^verbatim>\<open>addr2line\<close> is written.
  When a resolver writes more than one pair of lines, the \<^verbatim>\<open>while\<close> loop prints
  every pair, so the frame gets several lines with the same index: with five captured
  addresses and two retained frames, four lines are printed, with indices 1, 1, 0, 0. And
  the resolved line is written without a newline of its own: when the second line of the
  resolver does not end with one, the two frames are printed on one line.
\<close>

theorem print_stacktrace_indices_counterexample:
  "\<not> symbols_fail (five_frames False (Some two_pairs)) \<and>
   int (length (backtrace (five_frames False (Some two_pairs)) MAX_BACKTRACE_LINES)) - 2 - 1 = 2 \<and>
   map printed_index (err (snd (print_stacktrace (five_frames False (Some two_pairs)) 0 fresh))) =
     [Some 1, Some 1, Some 0, Some 0] \<and>
   map printed_index (err (snd (print_stacktrace (five_frames False (Some two_pairs)) 0 fresh))) \<noteq>
     map Some (rev [0..2 - 1]) \<and>
   one_or_two_lines no_final_newline \<and>
   concat (map (render (\<lambda>a. ''0x65'') [])
     (err (snd (print_stacktrace (five_frames False (Some no_final_newline)) 0 fresh)))) =
     ''[1] 0x65 in main at main.cpp:6[0] 0x65 in main at main.cpp:6''"
  by (simp add: run_simps two_pairs_def main_line_def upto_rec1 no_final_newline_def
      one_or_two_lines_def)

text \<open>
  C1 (amended). When the addresses and their strings have been captured, every resolver
  whose pipe opens writes one or two lines of text (as \<^verbatim>\<open>fgets\<close> reads them, no NUL
  byte, a newline at the end), and neither the library's strings nor the printed addresses
  hold a newline, the walk prints exactly one line per retained frame, resolved or
  fallback: the \<open>k\<close>-th record is one line of output that starts with its index between
  brackets, and the indices are \<open>D - 1, D - 2, \<dots>, 0\<close> in this order, where \<open>D\<close> is the
  number of captured addresses minus the two outermost and minus the one or two
  innermost. It does so whichever pipes fail to open and whichever resolutions fail.
\<close>

theorem print_stacktrace_indices:
  assumes "\<not> symbols_fail pf"
    and "\<forall>n cmd fp. popen_out pf n cmd = Some fp \<longrightarrow> text_answer fp"
    and "\<forall>a. LF \<notin> set (symbol_of pf a)" and "\<forall>a. LF \<notin> set (showp a)"
    and "D = int (length (backtrace pf MAX_BACKTRACE_LINES)) - 2 -
             (if calledFromSigInt \<noteq> 0 then 2 else 1)"
  shows "\<exists>new. fst (print_stacktrace pf calledFromSigInt s) = Return \<and>
     err (snd (print_stacktrace pf calledFromSigInt s)) = err s @ new \<and>
     map printed_index new = map Some (rev [0..D - 1]) \<and>
     list_all2
       (\<lambda>k e. \<exists>body. render showp errno_text e = ''['' @ itos k @ ''] '' @ body @ [LF] \<and>
                  LF \<notin> set (''['' @ itos k @ ''] '' @ body))
       (rev [0..D - 1]) new"
proof -
  define buffer where "buffer = backtrace pf MAX_BACKTRACE_LINES"
  define i :: int where "i = (if calledFromSigInt \<noteq> 0 then 2 else 1)"
  define nptrs where "nptrs = int (length buffer)"
  let ?P = "\<lambda>k e. printed_index e = Some k"
  let ?Q = "\<lambda>k e. \<exists>body. render showp errno_text e = ''['' @ itos k @ ''] '' @ body @ [LF] \<and>
                  LF \<notin> set (''['' @ itos k @ ''] '' @ body)"
  have p: "print_stacktrace pf calledFromSigInt s =
      (Return, print_stacktrace_loop pf buffer (map (symbol_of pf) buffer) nptrs i s)"
    using assms(1)
    by (simp add: print_stacktrace_def backtrace_symbols_def Let_def buffer_def i_def nptrs_def)
  from walk_text [OF assms(2), of buffer "map (symbol_of pf) buffer" nptrs i s] obtain new where
    new: "err (print_stacktrace_loop pf buffer (map (symbol_of pf) buffer) nptrs i s) = err s @ new"
    and all: "list_all2 (line_record buffer (map (symbol_of pf) buffer) nptrs) [i..nptrs - 3] new"
    by blast
  have both: "list_all2 (\<lambda>j e. ?P (nptrs - 3 - j) e \<and> ?Q (nptrs - 3 - j) e) [i..nptrs - 3] new"
    using all
  proof (rule list.rel_mono_strong)
    fix j e
    assume "j \<in> set [i..nptrs - 3]" and "line_record buffer (map (symbol_of pf) buffer) nptrs j e"
    moreover from this(1) have "0 \<le> j" "j < int (length buffer)"
      by (simp_all add: i_def nptrs_def split: if_splits)
    ultimately show "?P (nptrs - 3 - j) e \<and> ?Q (nptrs - 3 - j) e"
      using line_record_text [of buffer pf nptrs j e showp errno_text] assms(3,4) by blast
  qed
  have d: "D - 1 = nptrs - 3 - i"
    using assms(5) by (simp add: nptrs_def buffer_def i_def)
  have ks: "rev [0..D - 1] = map (\<lambda>j. nptrs - 3 - j) [i..nptrs - 3]"
    unfolding d by (rule map_upto_minus [symmetric])
  from both have "list_all2 ?P (rev [0..D - 1]) new" and q: "list_all2 ?Q (rev [0..D - 1]) new"
    unfolding ks list_all2_map1 by (auto elim: list_all2_mono)
  then have "map printed_index new = map Some (rev [0..D - 1])"
    using list_all2_printed_index by blast
  with p new q show ?thesis by (intro exI [of _ new]) simp
qed

theorem print_stacktrace_indices_witness:
  "\<not> symbols_fail (five_frames False (Some main_line)) \<and>
   (\<exists>fp. popen_out (five_frames False (Some main_line)) 0 (Addr2line ''(null)'' 101) = Some fp \<and>
         text_answer fp) \<and>
   LF \<notin> set (symbol_of (five_frames False (Some main_line)) 101) \<and>
   LF \<notin> set ''0x65'' \<and>
   int (length (backtrace (five_frames False (Some main_line)) MAX_BACKTRACE_LINES)) - 2 - 1 = 2 \<and>
   map printed_index (err (snd (print_stacktrace (five_frames False (Some main_line)) 0 fresh))) =
     [Some 1, Some 0] \<and>
   map (render (\<lambda>a. ''0x65'') [])
     (err (snd (print_stacktrace (five_frames False (Some main_line)) 0 fresh))) =
     [''[1] 0x65 in main at main.cpp:6 (discriminator 1)'' @ [LF],
      ''[0] 0x65 in main at main.cpp:6 (discriminator 1)'' @ [LF]]"
proof -
  let ?pf = "five_frames False (Some main_line)"
  have 1: "\<not> symbols_fail ?pf" by (simp add: five_frames_def)
  have 2: "\<forall>n cmd fp. popen_out ?pf n cmd = Some fp \<longrightarrow> text_answer fp"
    by (simp add: five_frames_def text_answer_main)
  have 3: "\<forall>a. LF \<notin> set (symbol_of ?pf a)"
    by (simp add: five_frames_def itos_no_newline)
  have 4: "\<forall>a::nat. LF \<notin> set ((\<lambda>a. ''0x65'') a)" by simp
  have 5: "2 = int (length (backtrace ?pf MAX_BACKTRACE_LINES)) - 2 - (if (0::int) \<noteq> 0 then 2 else 1)"
    by (simp add: five_frames_def backtrace_def MAX_BACKTRACE_LINES_def)
  have 6: "\<exists>fp. popen_out ?pf 0 (Addr2line ''(null)'' 101) = Some fp \<and> text_answer fp"
    by (simp add: five_frames_def text_answer_main)
  have e: "err fresh = []" by (simp add: fresh_def)
  have u: "rev [0..(1::int)] = [1, 0]" by (simp add: upto_rec1)
  from print_stacktrace_indices [OF 1 2 3 4 5, of fresh "[]"]
  have idx: "map printed_index (err (snd (print_stacktrace ?pf 0 fresh))) = [Some 1, Some 0]"
    by (auto simp: e u)
  have shown: "map (render (\<lambda>a. ''0x65'') []) (err (snd (print_stacktrace ?pf 0 fresh))) =
     [''[1] 0x65 in main at main.cpp:6 (discriminator 1)'' @ [LF],
      ''[0] 0x65 in main at main.cpp:6 (discriminator 1)'' @ [LF]]"
    by (simp add: run_simps main_line_def)
  from 3 have "LF \<notin> set (symbol_of ?pf 101)" by blast
  with 1 5 6 idx shown show ?thesis by simp
qed

text \<open>
  C2. A pipe that opens and gives no byte at all: the \<^verbatim>\<open>while\<close> loop of
  \<^verbatim>\<open>addr2line\<close> is not entered, the pipe is closed and 0 is returned although nothing
  was printed, so the caller prints no fallback line for the frame either. (With one line
  only, the second \<^verbatim>\<open>fgets\<close> fails and 1 is returned: \<open>loop_one_line\<close>.)
\<close>

theorem addr2line_empty_output:
  "addr2line (five_frames False (Some [])) prog a k s =
     (0, s\<lparr>spawned := spawned s @ [Addr2line (percent_s 256 prog) a],
            opened := opened s + 1, closed := closed s + 1\<rparr>) \<and>
   print_stacktrace_frame (five_frames False (Some [])) buffer strings nptrs i s =
     s\<lparr>spawned := spawned s @ [Addr2line (percent_s 256 (programName s)) (buffer ! nat i)],
       opened := opened s + 1, closed := closed s + 1\<rparr>"
  by (simp add: print_stacktrace_frame_def getProgramName_def addr2line_def popen_def
      five_frames_def loop_eof pclose_def)




text \<open>
  C4. A \<^verbatim>\<open>CriticalException\<close> with message \<open>m\<close>, function \<open>f\<close>, file \<open>fl\<close> and
  line \<open>n\<close> that reaches \<^verbatim>\<open>END_EXCEPTIONS\<close> makes it print
  \<open>m (in f at fl:n)\<close> and a newline, and call \<^verbatim>\<open>exit(EXIT_FAILURE)\<close>; the line
  number is printed as \<^verbatim>\<open>itos\<close> writes it, which is its decimal numeral (digits only,
  no leading zero, the value read back is \<open>n\<close>; a minus sign first when \<open>n\<close> is
  negative). In particular \<^verbatim>\<open>CRITICAL("There has been a critical error !")\<close> in
  \<^verbatim>\<open>main\<close>, \<^verbatim>\<open>main.cpp\<close>, line 6, inside the boundary, throws after the
  trace (when \<^verbatim>\<open>backtrace_symbols\<close> succeeds) and the boundary prints
  \<^verbatim>\<open>There has been a critical error ! (in main at main.cpp:6)\<close>.
\<close>

theorem END_EXCEPTIONS_prints:
  "END_EXCEPTIONS (Throw \<lparr>message = m, funcName = f, fileName = fl, line = n\<rparr>, s) =
     (Exit EXIT_FAILURE,
      s\<lparr>err := err s @ [Message (m @ '' (in '' @ f @ '' at '' @ fl @ '':'' @ itos n @ '')'')]\<rparr>) \<and>
   render showp errno_text (Message (m @ '' (in '' @ f @ '' at '' @ fl @ '':'' @ itos n @ '')'')) =
     m @ '' (in '' @ f @ '' at '' @ fl @ '':'' @ itos n @ '')'' @ [LF] \<and>
   (\<not> symbols_fail pf \<longrightarrow>
      (\<exists>s1. CRITICAL pf ''There has been a critical error !'' ''main'' ''main.cpp'' 6
               (BEGIN_EXCEPTIONS argv0 s) =
             (Throw \<lparr>message = ''There has been a critical error !'', funcName = ''main'',
                     fileName = ''main.cpp'', line = 6\<rparr>, s1) \<and>
           END_EXCEPTIONS
             (CRITICAL pf ''There has been a critical error !'' ''main'' ''main.cpp'' 6
               (BEGIN_EXCEPTIONS argv0 s)) =
             (Exit EXIT_FAILURE,
              s1\<lparr>err := err s1 @
                 [Message ''There has been a critical error ! (in main at main.cpp:6)'']\<rparr>))) \<and>
   (0 \<le> n \<longrightarrow>
      itos n \<noteq> [] \<and> set (itos n) \<subseteq> set ''0123456789'' \<and>
      int (decimal_value (itos n)) = n \<and> (hd (itos n) = CHR ''0'' \<longrightarrow> n = 0)) \<and>
   (n < 0 \<longrightarrow> itos n = CHR ''-'' # itos (- n))"
proof -
  have run: "END_EXCEPTIONS (Throw \<lparr>message = m, funcName = f, fileName = fl, line = n\<rparr>, s) =
     (Exit EXIT_FAILURE,
      s\<lparr>err := err s @ [Message (m @ '' (in '' @ f @ '' at '' @ fl @ '':'' @ itos n @ '')'')]\<rparr>) \<and>
   render showp errno_text (Message (m @ '' (in '' @ f @ '' at '' @ fl @ '':'' @ itos n @ '')'')) =
     m @ '' (in '' @ f @ '' at '' @ fl @ '':'' @ itos n @ '')'' @ [LF] \<and>
   (\<not> symbols_fail pf \<longrightarrow>
      (\<exists>s1. CRITICAL pf ''There has been a critical error !'' ''main'' ''main.cpp'' 6
               (BEGIN_EXCEPTIONS argv0 s) =
             (Throw \<lparr>message = ''There has been a critical error !'', funcName = ''main'',
                     fileName = ''main.cpp'', line = 6\<rparr>, s1) \<and>
           END_EXCEPTIONS
             (CRITICAL pf ''There has been a critical error !'' ''main'' ''main.cpp'' 6
               (BEGIN_EXCEPTIONS argv0 s)) =
             (Exit EXIT_FAILURE,
              s1\<lparr>err := err s1 @
                 [Message ''There has been a critical error ! (in main at main.cpp:6)'']\<rparr>)))"
  proof (intro conjI impI)
    show "END_EXCEPTIONS (Throw \<lparr>message = m, funcName = f, fileName = fl, line = n\<rparr>, s) =
       (Exit EXIT_FAILURE,
        s\<lparr>err := err s @ [Message (m @ '' (in '' @ f @ '' at '' @ fl @ '':'' @ itos n @ '')'')]\<rparr>)"
      by (simp add: END_EXCEPTIONS_def toStr_def)
    show "render showp errno_text (Message (m @ '' (in '' @ f @ '' at '' @ fl @ '':'' @ itos n @ '')'')) =
       m @ '' (in '' @ f @ '' at '' @ fl @ '':'' @ itos n @ '')'' @ [LF]"
      by simp
  next
    assume "\<not> symbols_fail pf"
    then obtain s1 where s1: "print_stacktrace pf 0 (BEGIN_EXCEPTIONS argv0 s) = (Return, s1)"
      using print_stacktrace_returns by blast
    have six: "itos 6 = ''6''"
      by (simp add: itos_def digits.simps digit_def)
    have "CRITICAL pf ''There has been a critical error !'' ''main'' ''main.cpp'' 6
                 (BEGIN_EXCEPTIONS argv0 s) =
               (Throw \<lparr>message = ''There has been a critical error !'', funcName = ''main'',
                       fileName = ''main.cpp'', line = 6\<rparr>, s1)"
      using s1 by (simp add: CRITICAL_def)
    moreover from this have "END_EXCEPTIONS
               (CRITICAL pf ''There has been a critical error !'' ''main'' ''main.cpp'' 6
                 (BEGIN_EXCEPTIONS argv0 s)) =
               (Exit EXIT_FAILURE,
                s1\<lparr>err := err s1 @
                   [Message ''There has been a critical error ! (in main at main.cpp:6)'']\<rparr>)"
      by (simp add: END_EXCEPTIONS_def toStr_def six)
    ultimately show "\<exists>s1. CRITICAL pf ''There has been a critical error !'' ''main'' ''main.cpp'' 6
                 (BEGIN_EXCEPTIONS argv0 s) =
               (Throw \<lparr>message = ''There has been a critical error !'', funcName = ''main'',
                       fileName = ''main.cpp'', line = 6\<rparr>, s1) \<and>
             END_EXCEPTIONS
               (CRITICAL pf ''There has been a critical error !'' ''main'' ''main.cpp'' 6
                 (BEGIN_EXCEPTIONS argv0 s)) =
               (Exit EXIT_FAILURE,
                s1\<lparr>err := err s1 @
                   [Message ''There has been a critical error ! (in main at main.cpp:6)'']\<rparr>)"
      by blast
  qed
  have dec: "(0 \<le> n \<longrightarrow>
      itos n \<noteq> [] \<and> set (itos n) \<subseteq> set ''0123456789'' \<and>
      int (decimal_value (itos n)) = n \<and> (hd (itos n) = CHR ''0'' \<longrightarrow> n = 0)) \<and>
   (n < 0 \<longrightarrow> itos n = CHR ''-'' # itos (- n))"
    using itos_decimal [of n] by blast
  from run dec show ?thesis by (elim conjE) (intro conjI; assumption)
qed

theorem END_EXCEPTIONS_prints_witness:
  "\<not> symbols_fail (five_frames False (Some main_line)) \<and>
   END_EXCEPTIONS
     (CRITICAL (five_frames False (Some main_line)) ''There has been a critical error !''
        ''main'' ''main.cpp'' 6 (BEGIN_EXCEPTIONS (Some ''./demo'') fresh)) =
     (Exit EXIT_FAILURE,
      \<lparr>programName = Some ''./demo'',
       handled = {SIGABRT, SIGFPE, SIGILL, SIGINT, SIGSEGV, SIGTERM},
       err = [Resolved 1 101 ''main'' (''main.cpp:6 (discriminator 1)'' @ [LF]),
              Resolved 0 102 ''main'' (''main.cpp:6 (discriminator 1)'' @ [LF]),
              Message ''There has been a critical error ! (in main at main.cpp:6)''],
       spawned = [Addr2line ''./demo'' 101, Addr2line ''./demo'' 102],
       opened = 2, closed = 2\<rparr>) \<and>
   (0::int) \<le> 37 \<and>
   END_EXCEPTIONS
     (Throw \<lparr>message = ''Foo crashed'', funcName = ''foo'', fileName = ''main.cpp'',
             line = 37\<rparr>, fresh) =
     (Exit EXIT_FAILURE, fresh\<lparr>err := [Message ''Foo crashed (in foo at main.cpp:37)'']\<rparr>) \<and>
   itos 37 = ''37'' \<and> decimal_value (itos 37) = 37 \<and>
   (-12 :: int) < 0 \<and> itos (-12) = ''-12''"
proof -
  have h: "\<not> symbols_fail (five_frames False (Some main_line))" by (simp add: five_frames_def)
  have run: "CRITICAL (five_frames False (Some main_line)) ''There has been a critical error !''
        ''main'' ''main.cpp'' 6 (BEGIN_EXCEPTIONS (Some ''./demo'') fresh) =
     (Throw \<lparr>message = ''There has been a critical error !'', funcName = ''main'',
                     fileName = ''main.cpp'', line = 6\<rparr>,
      \<lparr>programName = Some ''./demo'',
       handled = {SIGABRT, SIGFPE, SIGILL, SIGINT, SIGSEGV, SIGTERM},
       err = [Resolved 1 101 ''main'' (''main.cpp:6 (discriminator 1)'' @ [LF]),
              Resolved 0 102 ''main'' (''main.cpp:6 (discriminator 1)'' @ [LF])],
       spawned = [Addr2line ''./demo'' 101, Addr2line ''./demo'' 102],
       opened = 2, closed = 2\<rparr>)"
    by (simp add: CRITICAL_def run_simps main_line_def BEGIN_EXCEPTIONS_def init_exceptions_def
        set_signal_handler_def)
  have n: "itos 37 = ''37''" "itos (-12) = ''-12''" "itos 12 = ''12''"
    by (simp_all add: itos_def digits.simps digit_def)
  have e: "err fresh = []" by (simp add: fresh_def)
  from END_EXCEPTIONS_prints [of "''Foo crashed''" "''foo''" "''main.cpp''" 37 fresh
      "\<lambda>_. []" "[]" "five_frames False (Some main_line)" "Some ''./demo''"]
    END_EXCEPTIONS_prints [of "''Foo crashed''" "''foo''" "''main.cpp''" "-12" fresh
      "\<lambda>_. []" "[]" "five_frames False (Some main_line)" "Some ''./demo''"] h run
  show ?thesis by (auto simp: n e)
qed

text \<open>
  C5, as stated, fails when \<^verbatim>\<open>backtrace_symbols\<close> returns \<^verbatim>\<open>NULL\<close>: the stack
  walker then ends the process with \<^verbatim>\<open>exit\<close> before the handler writes its line.
\<close>

theorem posix_signal_handler_reports_counterexample:
  "posix_signal_handler (five_frames True None) SIGSEGV fresh =
     (Exit EXIT_FAILURE, fresh\<lparr>err := [Perror ''backtrace_symbols'']\<rparr>) \<and>
   Message ''Caught SIGSEGV: segfault''
     \<notin> set (err (snd (posix_signal_handler (five_frames True None) SIGSEGV fresh)))"
  by (simp add: posix_signal_handler_def print_stacktrace_def backtrace_symbols_def
      five_frames_def fresh_def)

text \<open>
  C5 (amended). Whenever \<^verbatim>\<open>backtrace_symbols\<close> succeeds, the signal handler first runs
  \<^verbatim>\<open>print_stacktrace(1)\<close>, which returns, then writes exactly one line, the one for
  its signal (any signal other than the five named ones gets the line of
  \<^verbatim>\<open>SIGTERM\<close>), then calls \<^verbatim>\<open>_Exit(EXIT_FAILURE)\<close>.
\<close>

theorem posix_signal_handler_reports:
  assumes "\<not> symbols_fail pf"
  shows "\<exists>s1 m. print_stacktrace pf 1 s = (Return, s1) \<and>
     posix_signal_handler pf sig s = (Exit_now EXIT_FAILURE, s1\<lparr>err := err s1 @ [Message m]\<rparr>) \<and>
     (sig = SIGABRT \<longrightarrow> m = ''Caught SIGABRT: usually caused by an abort() or assert()'') \<and>
     (sig = SIGFPE \<longrightarrow> m = ''Caught SIGFPE: arithmetic exception, such as divide by zero'') \<and>
     (sig = SIGILL \<longrightarrow> m = ''Caught SIGILL: illegal instruction'') \<and>
     (sig = SIGINT \<longrightarrow>
        m = ''Caught SIGINT: interactive attention signal, probably a ctrl+c'') \<and>
     (sig = SIGSEGV \<longrightarrow> m = ''Caught SIGSEGV: segfault'') \<and>
     (sig \<notin> {SIGABRT, SIGFPE, SIGILL, SIGINT, SIGSEGV} \<longrightarrow>
        m = ''Caught SIGTERM: a termination request was sent to the program'')"
proof -
  from assms obtain s1 where s1: "print_stacktrace pf 1 s = (Return, s1)"
    using print_stacktrace_returns by blast
  then show ?thesis
    by (auto simp: posix_signal_handler_def signal_defs)
qed

theorem posix_signal_handler_reports_witness:
  "\<not> symbols_fail (five_frames False (Some main_line)) \<and>
   posix_signal_handler (five_frames False (Some main_line)) SIGSEGV fresh =
     (Exit_now EXIT_FAILURE,
      fresh\<lparr>err := [Resolved 0 102 ''main'' (''main.cpp:6 (discriminator 1)'' @ [LF]),
                     Message ''Caught SIGSEGV: segfault''],
            spawned := [Addr2line ''(null)'' 102], opened := 1, closed := 1\<rparr>)"
proof -
  have h: "\<not> symbols_fail (five_frames False (Some main_line))" by (simp add: five_frames_def)
  have run: "print_stacktrace (five_frames False (Some main_line)) 1 fresh =
     (Return, fresh\<lparr>err := [Resolved 0 102 ''main'' (''main.cpp:6 (discriminator 1)'' @ [LF])],
            spawned := [Addr2line ''(null)'' 102], opened := 1, closed := 1\<rparr>)"
    by (simp add: run_simps main_line_def)
  from posix_signal_handler_reports [OF h, of fresh SIGSEGV] obtain s1 m where
    "print_stacktrace (five_frames False (Some main_line)) 1 fresh = (Return, s1)"
    "posix_signal_handler (five_frames False (Some main_line)) SIGSEGV fresh =
       (Exit_now EXIT_FAILURE, s1\<lparr>err := err s1 @ [Message m]\<rparr>)"
    "m = ''Caught SIGSEGV: segfault''"
    by blast
  with run h show ?thesis by (auto simp: fresh_def)
qed

text \<open>
  C6. When the addresses and their strings have been captured, the walk handles exactly the
  captured addresses from position 1 on (from position 2 on when it is called from the
  signal handler) up to the third from last: the resolver is started for these addresses,
  in this order, and for no other, and every line printed shows one of them, with the
  index that counts its distance from the last retained one.
\<close>

theorem print_stacktrace_retained:
  assumes "\<not> symbols_fail pf" and "buffer = backtrace pf MAX_BACKTRACE_LINES"
    and "skip = (if calledFromSigInt \<noteq> 0 then 2 else 1)"
  shows "\<exists>new. fst (print_stacktrace pf calledFromSigInt s) = Return \<and>
     spawned (snd (print_stacktrace pf calledFromSigInt s)) =
       spawned s @ map (Addr2line (percent_s 256 (programName s)))
                     (drop skip (take (length buffer - 2) buffer)) \<and>
     err (snd (print_stacktrace pf calledFromSigInt s)) = err s @ new \<and>
     (\<forall>e\<in>set new. \<exists>j. skip \<le> j \<and> j < length buffer - 2 \<and>
        (e = Fallback (int (length buffer) - 3 - int j) (symbol_of pf (buffer ! j)) \<or>
         (\<exists>sym loc. e = Resolved (int (length buffer) - 3 - int j) (buffer ! j) sym loc)))"
proof -
  define i :: int where "i = (if calledFromSigInt \<noteq> 0 then 2 else 1)"
  define nptrs where "nptrs = int (length buffer)"
  have i: "0 \<le> i" "nat i = skip" "i = int skip" using assms(3) by (simp_all add: i_def)
  from print_stacktrace_effect [OF assms(1,2) i_def nptrs_def, of s] obtain d new where
    run: "print_stacktrace pf calledFromSigInt s =
       (Return,
        s\<lparr>err := err s @ new,
          spawned := spawned s @
            map (\<lambda>j. Addr2line (percent_s 256 (programName s)) (buffer ! nat j)) [i..nptrs - 3],
          opened := opened s + d, closed := closed s + d\<rparr>)"
    and lines: "\<forall>e\<in>set new. \<exists>j. i \<le> j \<and> j < nptrs - 2 \<and>
        frame_line buffer (map (symbol_of pf) buffer) nptrs j e"
    by blast
  have "map (\<lambda>j. Addr2line (percent_s 256 (programName s)) (buffer ! nat j)) [i..nptrs - 3] =
        map (Addr2line (percent_s 256 (programName s))) (map (\<lambda>j. buffer ! nat j) [i..nptrs - 3])"
    by simp
  also have "map (\<lambda>j. buffer ! nat j) [i..nptrs - 3] =
        drop (nat i) (take (nat (nptrs - 3 + 1)) buffer)"
    using i(1) by (intro map_nth_upto) (simp_all add: nptrs_def)
  also have "nat (nptrs - 3 + 1) = length buffer - 2" by (simp add: nptrs_def)
  finally have sp: "spawned (snd (print_stacktrace pf calledFromSigInt s)) =
       spawned s @ map (Addr2line (percent_s 256 (programName s)))
                     (drop skip (take (length buffer - 2) buffer))"
    using run i(2) by simp
  have "\<exists>j. skip \<le> j \<and> j < length buffer - 2 \<and>
        (e = Fallback (int (length buffer) - 3 - int j) (symbol_of pf (buffer ! j)) \<or>
         (\<exists>sym loc. e = Resolved (int (length buffer) - 3 - int j) (buffer ! j) sym loc))"
    if "e \<in> set new" for e
  proof -
    from lines that obtain j where j: "i \<le> j" "j < nptrs - 2"
      and f: "frame_line buffer (map (symbol_of pf) buffer) nptrs j e" by blast
    have n: "skip \<le> nat j" "nat j < length buffer - 2" "nat j < length buffer" "int (nat j) = j"
      using j i by (simp_all add: nptrs_def)
    have "nptrs - 2 - j - 1 = int (length buffer) - 3 - int (nat j)"
      using n(4) by (simp add: nptrs_def)
    with f n(3) have "e = Fallback (int (length buffer) - 3 - int (nat j)) (symbol_of pf (buffer ! nat j)) \<or>
         (\<exists>sym loc. e = Resolved (int (length buffer) - 3 - int (nat j)) (buffer ! nat j) sym loc)"
      by (simp add: frame_line_def)
    with n(1,2) show ?thesis by blast
  qed
  with sp run show ?thesis by (intro exI [of _ new]) simp
qed

theorem print_stacktrace_retained_witness:
  "\<not> symbols_fail (five_frames False (Some unknown_line)) \<and>
   backtrace (five_frames False (Some unknown_line)) MAX_BACKTRACE_LINES =
     [100, 101, 102, 103, 104] \<and>
   print_stacktrace (five_frames False (Some unknown_line)) 0 fresh =
     (Return, fresh\<lparr>err := [Fallback 1 ''frame 101'', Fallback 0 ''frame 102''],
        spawned := [Addr2line ''(null)'' 101, Addr2line ''(null)'' 102],
        opened := 2, closed := 2\<rparr>) \<and>
   print_stacktrace (five_frames False (Some unknown_line)) 1 fresh =
     (Return, fresh\<lparr>err := [Fallback 0 ''frame 102''],
        spawned := [Addr2line ''(null)'' 102], opened := 1, closed := 1\<rparr>)"
proof -
  have 1: "\<not> symbols_fail (five_frames False (Some unknown_line))"
    by (simp add: five_frames_def)
  have 2: "[100, 101, 102, 103, 104] =
      backtrace (five_frames False (Some unknown_line)) MAX_BACKTRACE_LINES"
    by (simp add: backtrace_def five_frames_def MAX_BACKTRACE_LINES_def)
  have 3: "(1::nat) = (if (0::int) \<noteq> 0 then 2 else 1)" by simp
  have r0: "print_stacktrace (five_frames False (Some unknown_line)) 0 fresh =
     (Return, fresh\<lparr>err := [Fallback 1 ''frame 101'', Fallback 0 ''frame 102''],
        spawned := [Addr2line ''(null)'' 101, Addr2line ''(null)'' 102],
        opened := 2, closed := 2\<rparr>)"
    by (simp add: run_simps unknown_line_def)
  have r1: "print_stacktrace (five_frames False (Some unknown_line)) 1 fresh =
     (Return, fresh\<lparr>err := [Fallback 0 ''frame 102''],
        spawned := [Addr2line ''(null)'' 102], opened := 1, closed := 1\<rparr>)"
    by (simp add: run_simps unknown_line_def)
  from print_stacktrace_retained [OF 1 2 3, of fresh] 1 2 [symmetric] r0 r1
  show ?thesis by (intro conjI)
qed

text \<open>
  C7, as stated, fails when the first output line does not fit the 1035-byte buffer. With
  a symbol of 1040 bytes the printed symbol is its first 1033 bytes and the printed
  location is the rest of the symbol, not a part of the second line; with a symbol of 2070
  bytes \<^verbatim>\<open>addr2line\<close> returns 0 after two resolved lines, neither showing the
  symbol.
\<close>

theorem addr2line_resolved_output_counterexample:
  "long_resolved = long_name @ LF # ''/home/user/demo/main.cpp:6'' @ [LF] \<and>
   LF \<notin> set long_name \<and> length long_name = 1040 \<and>
   err (snd (addr2line (five_frames False (Some long_resolved)) None 101 1 fresh)) =
     [Resolved 1 101 (replicate 1033 CHR ''a'') (''aaaaaaa'' @ [LF])] \<and>
   without_line_end (c_str long_name) \<noteq> replicate 1033 CHR ''a'' \<and>
   after_last_slash (c_str (''/home/user/demo/main.cpp:6'' @ [LF])) \<noteq> ''aaaaaaa'' @ [LF] \<and>
   addr2line (five_frames False (Some longer_resolved)) None 101 1 fresh =
     (0, fresh\<lparr>err := [Resolved 1 101 (replicate 1033 CHR ''a'') (replicate 1033 CHR ''a''),
                         Resolved 1 101 ''aaaa'' (''main.cpp:6'' @ [LF])],
               spawned := [Addr2line ''(null)'' 101], opened := 1, closed := 1\<rparr>)"
proof -
  have 1: "long_resolved = long_name @ LF # ''/home/user/demo/main.cpp:6'' @ [LF]"
    by (simp add: long_resolved_def)
  have 2: "LF \<notin> set long_name" and 3: "length long_name = 1040"
    by (simp_all add: long_name_def)
  have 4: "err (snd (addr2line (five_frames False (Some long_resolved)) None 101 1 fresh)) =
     [Resolved 1 101 (replicate 1033 CHR ''a'') (''aaaaaaa'' @ [LF])]"
    by (simp add: addr2line_def popen_def percent_s_def five_frames_def long_resolved_def
        long_name_turn)
       (simp add: addr2line_loop.simps fgets_def pclose_def first_char_def fresh_def)
  have "without_line_end (c_str long_name) = long_name"
    by (simp add: c_str_text without_line_end_text long_name_def)
  then have len: "length (without_line_end (c_str long_name)) = 1040"
    by (simp add: long_name_def)
  have 5: "without_line_end (c_str long_name) \<noteq> replicate 1033 CHR ''a''"
  proof
    assume "without_line_end (c_str long_name) = replicate 1033 CHR ''a''"
    then have "length (without_line_end (c_str long_name)) = 1033" by simp
    with len show False by simp
  qed
  have 6: "after_last_slash (c_str (''/home/user/demo/main.cpp:6'' @ [LF])) \<noteq> ''aaaaaaa'' @ [LF]"
    by (simp add: after_last_slash_def c_str_def)
  have 7: "addr2line (five_frames False (Some longer_resolved)) None 101 1 fresh =
     (0, fresh\<lparr>err := [Resolved 1 101 (replicate 1033 CHR ''a'') (replicate 1033 CHR ''a''),
                         Resolved 1 101 ''aaaa'' (''main.cpp:6'' @ [LF])],
               spawned := [Addr2line ''(null)'' 101], opened := 1, closed := 1\<rparr>)"
    by (simp add: addr2line_def popen_def percent_s_def five_frames_def longer_resolved_def
        full_buffers_turn)
       (simp add: addr2line_loop.simps fgets_def pclose_def first_char_def fresh_def c_str_def)
  from 1 2 3 4 5 6 7 show ?thesis by (intro conjI)
qed

text \<open>
  C7 (amended). When the first output line of the resolver has fewer than 1033 bytes before
  its newline, and the second output line has fewer than 1033 bytes, ends with a newline
  or with the output, and does not start with a question mark, the first thing
  \<^verbatim>\<open>addr2line\<close> prints is the frame with, as symbol, the first line (as a C string)
  up to its first carriage return, and, as location, what follows the last slash of the
  second line (as a C string, with its newline if it has one; the whole line when it has
  no slash). The symbol holds no carriage return and no newline, and the location holds no
  slash.
\<close>

theorem addr2line_resolved_output:
  assumes "popen_out pf (length (spawned s)) (Addr2line (percent_s 256 prog) addr) =
           Some (line1 @ LF # line2 @ tail)"
    and "LF \<notin> set line1" and "length line1 < 1033"
    and "LF \<notin> set line2" and "length line2 < 1033"
    and "tail = [] \<or> hd tail = LF" and "line2 @ tail \<noteq> []"
    and "first_char (line2 @ tail) \<noteq> CHR ''?''"
  shows "(\<exists>more. err (snd (addr2line pf prog addr lineNb s)) =
            err s @ Resolved lineNb addr (without_line_end (c_str line1))
                      (after_last_slash (c_str (line2 @ take 1 tail))) # more) \<and>
         CR \<notin> set (without_line_end (c_str line1)) \<and>
         LF \<notin> set (without_line_end (c_str line1)) \<and>
         (\<exists>post. c_str line1 = without_line_end (c_str line1) @ post \<and>
            (post = [] \<or> hd post = CR)) \<and>
         CHR ''/'' \<notin> set (after_last_slash (c_str (line2 @ take 1 tail))) \<and>
         (\<exists>pre. c_str (line2 @ take 1 tail) = pre @ after_last_slash (c_str (line2 @ take 1 tail)) \<and>
            (pre = [] \<or> last pre = CHR ''/''))"
proof -
  have 1: "fgets (1035 - 1) (line1 @ LF # line2 @ tail) = Some (line1 @ [LF], line2 @ tail)"
    using assms(2,3) by (rule fgets_line)
  have 2: "fgets (1035 - 1) (line2 @ tail) = Some (line2 @ take 1 tail, drop 1 tail)"
    using assms(4-7) by (rule fgets_last_line)
  have 3: "first_char (line2 @ take 1 tail) \<noteq> CHR ''?''"
    using first_char_take [OF assms(7)] assms(8) by simp
  from without_line_end_props(3) [of "c_str line1"] obtain post where
    post: "c_str line1 = without_line_end (c_str line1) @ post"
      "post = [] \<or> hd post = CR \<or> hd post = LF"
    by blast
  have "set post \<subseteq> set (c_str line1)" using post(1) by (metis set_append sup_ge2)
  moreover have "set (c_str line1) \<subseteq> set line1"
    by (auto simp: c_str_def dest: set_takeWhileD)
  ultimately have "LF \<notin> set post" using assms(2) by blast
  then have "post = [] \<or> hd post = CR" using post(2) by (cases post) auto
  with post(1) have 4: "\<exists>post. c_str line1 = without_line_end (c_str line1) @ post \<and>
            (post = [] \<or> hd post = CR)" by blast
  from resolved_reads [OF assms(1) 1 2 3, of lineNb] 4 show ?thesis
    by (simp add: c_str_line)
qed

theorem addr2line_resolved_output_witness:
  "popen_out (five_frames False (Some main_line)) (length (spawned fresh))
     (Addr2line (percent_s 256 (Some ''./demo'')) 101) =
     Some (''main'' @ LF # ''/home/user/demo/main.cpp:6 (discriminator 1)'' @ [LF]) \<and>
   LF \<notin> set ''main'' \<and> length ''main'' < 1033 \<and>
   LF \<notin> set ''/home/user/demo/main.cpp:6 (discriminator 1)'' \<and>
   length ''/home/user/demo/main.cpp:6 (discriminator 1)'' < 1033 \<and>
   hd [LF] = LF \<and>
   first_char (''/home/user/demo/main.cpp:6 (discriminator 1)'' @ [LF]) \<noteq> CHR ''?'' \<and>
   err (snd (addr2line (five_frames False (Some main_line)) (Some ''./demo'') 101 1 fresh)) =
     [Resolved 1 101 ''main'' (''main.cpp:6 (discriminator 1)'' @ [LF])]"
proof -
  let ?l2 = "''/home/user/demo/main.cpp:6 (discriminator 1)''"
  have 1: "popen_out (five_frames False (Some main_line)) (length (spawned fresh))
     (Addr2line (percent_s 256 (Some ''./demo'')) 101) = Some (''main'' @ LF # ?l2 @ [LF])"
    by (simp add: five_frames_def main_line_def)
  have 2: "LF \<notin> set ''main''" and 3: "length ''main'' < 1033"
    and 4: "LF \<notin> set ?l2" and 5: "length ?l2 < 1033" by simp_all
  have 6: "[LF] = [] \<or> hd [LF] = LF" and 7: "?l2 @ [LF] \<noteq> []" by simp_all
  have 8: "first_char (?l2 @ [LF]) \<noteq> CHR ''?''" by (simp add: first_char_def)
  have run: "err (snd (addr2line (five_frames False (Some main_line)) (Some ''./demo'') 101 1 fresh)) =
     [Resolved 1 101 ''main'' (''main.cpp:6 (discriminator 1)'' @ [LF])]"
    by (simp add: run_simps main_line_def)
  have "hd [LF] = LF" by simp
  with addr2line_resolved_output [OF 1 2 3 4 5 6 7 8, of 1] 1 2 3 4 5 8 run show ?thesis
    by (intro conjI)
qed

text \<open>
  C8. A call of \<^verbatim>\<open>addr2line\<close> whose pipe opens calls \<^verbatim>\<open>pclose\<close> exactly once,
  however the call ends; a call whose pipe does not open calls it not at all. So a whole
  walk, one resolver call after the other, leaves as many pipes open as it found.
\<close>

theorem addr2line_closes_pipe:
  "(popen_out pf (length (spawned s)) (Addr2line (percent_s 256 prog) addr) \<noteq> None \<longrightarrow>
      opened (snd (addr2line pf prog addr lineNb s)) = opened s + 1 \<and>
      closed (snd (addr2line pf prog addr lineNb s)) = closed s + 1) \<and>
   (popen_out pf (length (spawned s)) (Addr2line (percent_s 256 prog) addr) = None \<longrightarrow>
      opened (snd (addr2line pf prog addr lineNb s)) = opened s \<and>
      closed (snd (addr2line pf prog addr lineNb s)) = closed s) \<and>
   opened (snd (print_stacktrace pf calledFromSigInt s)) + closed s =
     opened s + closed (snd (print_stacktrace pf calledFromSigInt s))"
proof -
  from addr2line_effect [of pf prog addr lineNb s] obtain r d evs where
    a: "addr2line pf prog addr lineNb s =
       (r, s\<lparr>err := err s @ evs, spawned := spawned s @ [Addr2line (percent_s 256 prog) addr],
              opened := opened s + d, closed := closed s + d\<rparr>)"
    and d: "d = (if popen_out pf (length (spawned s)) (Addr2line (percent_s 256 prog) addr) = None
          then 0 else 1)"
    by blast
  have 1: "popen_out pf (length (spawned s)) (Addr2line (percent_s 256 prog) addr) \<noteq> None \<longrightarrow>
      opened (snd (addr2line pf prog addr lineNb s)) = opened s + 1 \<and>
      closed (snd (addr2line pf prog addr lineNb s)) = closed s + 1"
    and 2: "popen_out pf (length (spawned s)) (Addr2line (percent_s 256 prog) addr) = None \<longrightarrow>
      opened (snd (addr2line pf prog addr lineNb s)) = opened s \<and>
      closed (snd (addr2line pf prog addr lineNb s)) = closed s"
    unfolding a using d by simp_all
  have 3: "opened (snd (print_stacktrace pf calledFromSigInt s)) + closed s =
     opened s + closed (snd (print_stacktrace pf calledFromSigInt s))"
  proof (cases "symbols_fail pf")
    case True
    then show ?thesis by (simp add: print_stacktrace_def backtrace_symbols_def)
  next
    case False
    define buffer where "buffer = backtrace pf MAX_BACKTRACE_LINES"
    define i :: int where "i = (if calledFromSigInt \<noteq> 0 then 1 + 1 else 1)"
    have p: "snd (print_stacktrace pf calledFromSigInt s) =
        print_stacktrace_loop pf buffer (map (symbol_of pf) buffer) (int (length buffer)) i s"
      using False by (simp add: print_stacktrace_def backtrace_symbols_def buffer_def i_def Let_def)
    from loop_effect [of pf buffer "map (symbol_of pf) buffer" "int (length buffer)" i s]
    obtain d' new where
      "print_stacktrace_loop pf buffer (map (symbol_of pf) buffer) (int (length buffer)) i s =
       s\<lparr>err := err s @ new,
         spawned := spawned s @
           map (\<lambda>j. Addr2line (percent_s 256 (programName s)) (buffer ! nat j))
             [i..int (length buffer) - 3],
         opened := opened s + d', closed := closed s + d'\<rparr>"
      by blast
    then show ?thesis unfolding p by simp
  qed
  from 1 2 3 show ?thesis by (intro conjI)
qed

theorem addr2line_closes_pipe_witness:
  "popen_out (five_frames False (Some unknown_line)) (length (spawned fresh))
     (Addr2line (percent_s 256 None) 101) \<noteq> None \<and>
   opened (snd (addr2line (five_frames False (Some unknown_line)) None 101 1 fresh)) = 1 \<and>
   closed (snd (addr2line (five_frames False (Some unknown_line)) None 101 1 fresh)) = 1 \<and>
   popen_out (five_frames False None) (length (spawned fresh))
     (Addr2line (percent_s 256 None) 101) = None \<and>
   opened (snd (addr2line (five_frames False None) None 101 1 fresh)) = 0 \<and>
   closed (snd (addr2line (five_frames False None) None 101 1 fresh)) = 0 \<and>
   opened (snd (print_stacktrace (five_frames False (Some main_line)) 0 fresh)) = 2 \<and>
   closed (snd (print_stacktrace (five_frames False (Some main_line)) 0 fresh)) = 2"
proof -
  have 1: "popen_out (five_frames False (Some unknown_line)) (length (spawned fresh))
     (Addr2line (percent_s 256 None) 101) \<noteq> None"
    and 2: "popen_out (five_frames False None) (length (spawned fresh))
     (Addr2line (percent_s 256 None) 101) = None"
    by (simp_all add: five_frames_def)
  have f: "opened fresh = 0" "closed fresh = 0" by (simp_all add: fresh_def)
  have 3: "opened (snd (print_stacktrace (five_frames False (Some main_line)) 0 fresh)) = 2"
    by (simp add: run_simps main_line_def)
  from addr2line_closes_pipe [of "five_frames False (Some unknown_line)" fresh None 101 1 0] 1
    addr2line_closes_pipe [of "five_frames False None" fresh None 101 1 0] 2
    addr2line_closes_pipe [of "five_frames False (Some main_line)" fresh None 101 1 0] 3
  show ?thesis by (simp add: f)
qed

text \<open>
  C9. With the program name unset (the static pointer is null at the start of the process)
  or empty, and a resolver that writes nothing to its standard output, the walk over five
  captured addresses returns normally, starts the resolver for the two retained frames and
  prints nothing: neither frame gets its index and library string.
\<close>

theorem print_stacktrace_no_program_name:
  "print_stacktrace (five_frames False (Some [])) 0 fresh =
     (Return, fresh\<lparr>spawned := [Addr2line ''(null)'' 101, Addr2line ''(null)'' 102],
                   opened := 2, closed := 2\<rparr>) \<and>
   err (snd (print_stacktrace (five_frames False (Some [])) 0 fresh)) = [] \<and>
   print_stacktrace (five_frames False (Some [])) 0 (BEGIN_EXCEPTIONS (Some []) fresh) =
     (Return, (BEGIN_EXCEPTIONS (Some []) fresh)
        \<lparr>spawned := [Addr2line [] 101, Addr2line [] 102], opened := 2, closed := 2\<rparr>) \<and>
   err (snd (print_stacktrace (five_frames False (Some [])) 0 (BEGIN_EXCEPTIONS (Some []) fresh))) = []"
  by (simp add: run_simps BEGIN_EXCEPTIONS_def init_exceptions_def set_signal_handler_def)

text \<open>
  C10. When \<^verbatim>\<open>backtrace_symbols\<close> returns \<^verbatim>\<open>NULL\<close>, \<^verbatim>\<open>print_stacktrace\<close>
  writes the \<^verbatim>\<open>perror\<close> line only and calls \<^verbatim>\<open>exit(EXIT_FAILURE)\<close>: no frame is
  printed and no subprocess is started. The signal handler and \<^verbatim>\<open>CRITICAL\<close> end the
  same way, before the signal's message is written and before the exception is thrown.
\<close>

theorem print_stacktrace_symbols_null:
  assumes "symbols_fail pf"
  shows "print_stacktrace pf calledFromSigInt s =
           (Exit EXIT_FAILURE, s\<lparr>err := err s @ [Perror ''backtrace_symbols'']\<rparr>) \<and>
         posix_signal_handler pf sig s =
           (Exit EXIT_FAILURE, s\<lparr>err := err s @ [Perror ''backtrace_symbols'']\<rparr>) \<and>
         CRITICAL pf str func fl ln s =
           (Exit EXIT_FAILURE, s\<lparr>err := err s @ [Perror ''backtrace_symbols'']\<rparr>)"
  using assms
  by (simp add: print_stacktrace_def backtrace_symbols_def posix_signal_handler_def CRITICAL_def)

theorem print_stacktrace_symbols_null_witness:
  "symbols_fail (five_frames True None) \<and>
   print_stacktrace (five_frames True None) 1 fresh =
     (Exit EXIT_FAILURE, fresh\<lparr>err := [Perror ''backtrace_symbols'']\<rparr>) \<and>
   posix_signal_handler (five_frames True None) SIGSEGV fresh =
     (Exit EXIT_FAILURE, fresh\<lparr>err := [Perror ''backtrace_symbols'']\<rparr>) \<and>
   CRITICAL (five_frames True None) ''Foo crashed'' ''foo'' ''main.cpp'' 37 fresh =
     (Exit EXIT_FAILURE, fresh\<lparr>err := [Perror ''backtrace_symbols'']\<rparr>)"
proof -
  have h: "symbols_fail (five_frames True None)" by (simp add: five_frames_def)
  have e: "err fresh = []" by (simp add: fresh_def)
  from h print_stacktrace_symbols_null [OF h, of 1 fresh SIGSEGV "''Foo crashed''" "''foo''" "''main.cpp''" 37]
  show ?thesis by (simp add: e)
qed

end
